theory Spec2Isabelle
  imports Main "HOL-Library.Sublist"
begin

section \<open>Python values used by the mapper\<close>

text \<open>
  A Python \<open>str\<close> is modelled by the list of bytes of its UTF-8 encoding (\<open>string\<close>).
  Every \<open>str\<close> without lone surrogates has exactly one such encoding; on those,
  \<open>urllib.parse.quote\<close> works byte by byte, \<open>str.replace(" ", "_")\<close> touches only the
  byte \<open>0x20\<close>, and \<open>str.strip()\<close> removes the encodings of the 29 code points for
  which \<open>str.isspace()\<close> holds.
\<close>

definition py_whitespace :: "string list" where
  "py_whitespace =
    [[CHR 0x09], [CHR 0x0A], [CHR 0x0B], [CHR 0x0C], [CHR 0x0D],
     [CHR 0x1C], [CHR 0x1D], [CHR 0x1E], [CHR 0x1F], [CHR 0x20],
     [CHR 0xC2, CHR 0x85], [CHR 0xC2, CHR 0xA0],
     [CHR 0xE1, CHR 0x9A, CHR 0x80],
     [CHR 0xE2, CHR 0x80, CHR 0x80], [CHR 0xE2, CHR 0x80, CHR 0x81],
     [CHR 0xE2, CHR 0x80, CHR 0x82], [CHR 0xE2, CHR 0x80, CHR 0x83],
     [CHR 0xE2, CHR 0x80, CHR 0x84], [CHR 0xE2, CHR 0x80, CHR 0x85],
     [CHR 0xE2, CHR 0x80, CHR 0x86], [CHR 0xE2, CHR 0x80, CHR 0x87],
     [CHR 0xE2, CHR 0x80, CHR 0x88], [CHR 0xE2, CHR 0x80, CHR 0x89],
     [CHR 0xE2, CHR 0x80, CHR 0x8A],
     [CHR 0xE2, CHR 0x80, CHR 0xA8], [CHR 0xE2, CHR 0x80, CHR 0xA9],
     [CHR 0xE2, CHR 0x80, CHR 0xAF],
     [CHR 0xE2, CHR 0x81, CHR 0x9F],
     [CHR 0xE3, CHR 0x80, CHR 0x80]]"

text \<open>The whitespace character a string starts with, or ends with, if any.\<close>

definition ws_prefix :: "string \<Rightarrow> string option" where
  "ws_prefix s = find (\<lambda>w. prefix w s) py_whitespace"

definition ws_suffix :: "string \<Rightarrow> string option" where
  "ws_suffix s = find (\<lambda>w. suffix w s) py_whitespace"

lemma py_whitespace_nonempty: "w \<in> set py_whitespace \<Longrightarrow> w \<noteq> []"
  by (auto simp: py_whitespace_def)

lemma find_Some_mem: "find P xs = Some x \<Longrightarrow> x \<in> set xs \<and> P x"
  by (induction xs) (auto split: if_splits)

lemma ws_prefix_Some: "ws_prefix s = Some w \<Longrightarrow> w \<noteq> [] \<and> prefix w s \<and> w \<in> set py_whitespace"
  unfolding ws_prefix_def
  using find_Some_mem [of "\<lambda>w. prefix w s" py_whitespace w] py_whitespace_nonempty [of w]
  by simp

lemma ws_suffix_Some: "ws_suffix s = Some w \<Longrightarrow> w \<noteq> [] \<and> suffix w s \<and> w \<in> set py_whitespace"
  unfolding ws_suffix_def
  using find_Some_mem [of "\<lambda>w. suffix w s" py_whitespace w] py_whitespace_nonempty [of w]
  by simp

text \<open>\<open>str.lstrip()\<close>, \<open>str.rstrip()\<close> and \<open>str.strip()\<close> without argument.\<close>

function lstrip :: "string \<Rightarrow> string" where
  "lstrip s = (case ws_prefix s of None \<Rightarrow> s | Some w \<Rightarrow> lstrip (drop (length w) s))"
  by pat_completeness auto
termination
proof (relation "measure length")
  show "wf (measure length)" by simp
next
  fix s w assume "ws_prefix s = Some w"
  then have "w \<noteq> []" "prefix w s" using ws_prefix_Some by blast+
  then have "s \<noteq> []" by auto
  with \<open>w \<noteq> []\<close> show "(drop (length w) s, s) \<in> measure length" by simp
qed

function rstrip :: "string \<Rightarrow> string" where
  "rstrip s = (case ws_suffix s of None \<Rightarrow> s | Some w \<Rightarrow> rstrip (take (length s - length w) s))"
  by pat_completeness auto
termination
proof (relation "measure length")
  show "wf (measure length)" by simp
next
  fix s w assume "ws_suffix s = Some w"
  then have "w \<noteq> []" "suffix w s" using ws_suffix_Some by blast+
  then have "s \<noteq> []" by auto
  with \<open>w \<noteq> []\<close> show "(take (length s - length w) s, s) \<in> measure length" by simp
qed

declare lstrip.simps [simp del] rstrip.simps [simp del]

definition strip :: "string \<Rightarrow> string" where
  "strip s = rstrip (lstrip s)"

text \<open>\<open>value.replace(" ", "_")\<close>.\<close>

definition replace_space :: "string \<Rightarrow> string" where
  "replace_space s = map (\<lambda>c. if c = CHR '' '' then CHR ''_'' else c) s"

text \<open>
  \<open>urllib.parse.quote(string)\<close> with its default \<open>safe='/'\<close>: a byte of
  \<open>_ALWAYS_SAFE\<close> or \<open>/\<close> is kept, every other byte \<open>b\<close> becomes \<open>'%{:02X}'.format(b)\<close>.
\<close>

definition safe_bytes :: "string" where
  "safe_bytes = ''ABCDEFGHIJKLMNOPQRSTUVWXYZ'' @ ''abcdefghijklmnopqrstuvwxyz''
     @ ''0123456789'' @ ''_.-~'' @ ''/''"

definition hex_digit :: "nat \<Rightarrow> char" where
  "hex_digit n = ''0123456789ABCDEF'' ! (n mod 16)"

definition quote_byte :: "char \<Rightarrow> string" where
  "quote_byte b = (if b \<in> set safe_bytes then [b]
     else [CHR ''%'', hex_digit (of_char b div 16), hex_digit (of_char b mod 16)])"

definition quote :: "string \<Rightarrow> string" where
  "quote s = concat (map quote_byte s)"

text \<open>\<open>str(i)\<close> of a non-negative integer, as the f-strings format the slot index.\<close>

definition dec_digit :: "nat \<Rightarrow> char" where
  "dec_digit n = ''0123456789'' ! (n mod 10)"

fun str_nat :: "nat \<Rightarrow> string" where
  "str_nat n = (if n < 10 then [dec_digit n] else str_nat (n div 10) @ [dec_digit (n mod 10)])"

declare str_nat.simps [simp del]

text \<open>
  A field of the fetched JSON record is a string or \<open>null\<close>; the record is a \<open>dict\<close>.
  \<open>dict_get\<close> is \<open>meal.get(key)\<close>, which gives \<open>None\<close> for a missing key, and
  \<open>format_value\<close> is how an f-string renders a field.
\<close>

datatype jval = JNull | JStr string

type_synonym meal = "string \<rightharpoonup> jval"

definition dict_get :: "meal \<Rightarrow> string \<Rightarrow> jval" where
  "dict_get meal key = (case meal key of None \<Rightarrow> JNull | Some v \<Rightarrow> v)"

fun format_value :: "jval \<Rightarrow> string" where
  "format_value (JStr s) = s"
| "format_value JNull = ''None''"

section \<open>RDF terms, namespaces and the graph\<close>

datatype node = URIRef string | Literal string

type_synonym triple = "node \<times> node \<times> node"

type_synonym graph = "triple set"

datatype error = KeyError string | AssertionError

definition RECIPE :: string where "RECIPE = ''http://example.org/recipe/''"
definition MEAL :: string where "MEAL = ''http://example.org/meal/''"
definition INGREDIENT :: string where "INGREDIENT = ''http://example.org/ingredient/''"
definition CATEGORY :: string where "CATEGORY = ''http://example.org/category/''"
definition CUISINE :: string where "CUISINE = ''http://example.org/cuisine/''"

definition RDF_type :: node where
  "RDF_type = URIRef ''http://www.w3.org/1999/02/22-rdf-syntax-ns#type''"

definition RDFS_label :: node where
  "RDFS_label = URIRef ''http://www.w3.org/2000/01/rdf-schema#label''"

text \<open>
  \<open>Namespace.term(name)\<close> is \<open>URIRef(self + (name if isinstance(name, str) else ""))\<close>;
  \<open>ns.attr\<close> and \<open>ns[key]\<close> both go through it.
\<close>

definition ns_term :: "string \<Rightarrow> string \<Rightarrow> node" where
  "ns_term ns name = URIRef (ns @ name)"

fun ns_getitem :: "string \<Rightarrow> jval \<Rightarrow> node" where
  "ns_getitem ns (JStr name) = ns_term ns name"
| "ns_getitem ns JNull = URIRef ns"

text \<open>\<open>g.add(triple)\<close>: the store is a set, adding a triple it holds changes nothing.\<close>

definition add :: "triple \<Rightarrow> graph \<Rightarrow> graph" where
  "add t g = insert t g"

section \<open>The mapper\<close>

text \<open>The local \<open>safe_value\<close> of \<open>create_uri_ref\<close>.\<close>

definition safe_value :: "string \<Rightarrow> string" where
  "safe_value v = quote (replace_space (strip v))"

definition create_uri_ref :: "string \<Rightarrow> string \<Rightarrow> node option" where
  "create_uri_ref namespace v =
     (if v \<noteq> [] then Some (ns_term namespace (safe_value v)) else None)"

text \<open>
  One of the four \<open>if meal.get(key): g.add((meal_uri, predicate, Literal(meal[key])))\<close>
  statements.
\<close>

definition add_property :: "meal \<Rightarrow> node \<Rightarrow> string \<Rightarrow> string \<Rightarrow> graph \<Rightarrow> graph" where
  "add_property meal meal_uri key pname g =
     (case dict_get meal key of
        JStr v \<Rightarrow> if v \<noteq> [] then add (meal_uri, ns_term RECIPE pname, Literal v) g else g
      | JNull \<Rightarrow> g)"

definition add_basic_properties :: "meal \<Rightarrow> node \<Rightarrow> graph \<Rightarrow> graph" where
  "add_basic_properties meal meal_uri g =
     (let g = add_property meal meal_uri ''strMeal'' ''hasName'' g;
          g = add_property meal meal_uri ''strInstructions'' ''hasInstructions'' g;
          g = add_property meal meal_uri ''strMealThumb'' ''hasThumbnail'' g;
          g = add_property meal meal_uri ''strYoutube'' ''hasYoutubeLink'' g
      in g)"

text \<open>
  The category and the cuisine blocks. \<open>g.add\<close> asserts that the subject is an RDF term,
  so a \<open>None\<close> from \<open>create_uri_ref\<close> would raise \<open>AssertionError\<close> with the store as it
  is at that point.
\<close>

definition add_category :: "meal \<Rightarrow> node \<Rightarrow> graph \<Rightarrow> (error \<times> graph) + graph" where
  "add_category meal meal_uri g =
     (case dict_get meal ''strCategory'' of
        JStr v \<Rightarrow>
          if v \<noteq> [] then
            (case create_uri_ref CATEGORY v of
               None \<Rightarrow> Inl (AssertionError, g)
             | Some category_uri \<Rightarrow>
                 (let g = add (category_uri, RDF_type, ns_term RECIPE ''Category'') g;
                      g = add (category_uri, RDFS_label, Literal v) g;
                      g = add (meal_uri, ns_term RECIPE ''belongsToCategory'', category_uri) g
                  in Inr g))
          else Inr g
      | JNull \<Rightarrow> Inr g)"

definition add_cuisine :: "meal \<Rightarrow> node \<Rightarrow> graph \<Rightarrow> (error \<times> graph) + graph" where
  "add_cuisine meal meal_uri g =
     (case dict_get meal ''strArea'' of
        JStr v \<Rightarrow>
          if v \<noteq> [] then
            (case create_uri_ref CUISINE v of
               None \<Rightarrow> Inl (AssertionError, g)
             | Some cuisine_uri \<Rightarrow>
                 (let g = add (cuisine_uri, RDF_type, ns_term RECIPE ''Cuisine'') g;
                      g = add (cuisine_uri, RDFS_label, Literal v) g;
                      g = add (meal_uri, ns_term RECIPE ''belongsToCuisine'', cuisine_uri) g
                  in Inr g))
          else Inr g
      | JNull \<Rightarrow> Inr g)"

text \<open>\<open>URIRef(f"{INGREDIENT}{meal_id}_ingredient_{i}")\<close>.\<close>

definition ingredient_uri :: "jval \<Rightarrow> nat \<Rightarrow> node" where
  "ingredient_uri meal_id i =
     URIRef (INGREDIENT @ format_value meal_id @ ''_ingredient_'' @ str_nat i)"

text \<open>\<open>x and x.strip()\<close> as a condition: \<open>x\<close> is a non-empty string that is not all whitespace.\<close>

fun nonblank :: "jval \<Rightarrow> bool" where
  "nonblank (JStr v) = (v \<noteq> [] \<and> strip v \<noteq> [])"
| "nonblank JNull = False"

fun stripped :: "jval \<Rightarrow> string" where
  "stripped (JStr v) = strip v"
| "stripped JNull = []"

text \<open>The body of the loop over the ingredient slots, for slot \<open>i\<close>.\<close>

definition add_ingredient :: "meal \<Rightarrow> jval \<Rightarrow> node \<Rightarrow> nat \<Rightarrow> graph \<Rightarrow> graph" where
  "add_ingredient meal meal_id meal_uri i g =
     (let ingredient_name = dict_get meal (''strIngredient'' @ str_nat i);
          ingredient_measure = dict_get meal (''strMeasure'' @ str_nat i)
      in if nonblank ingredient_name then
           (let ingredient_uri = ingredient_uri meal_id i;
                g = add (ingredient_uri, RDF_type, ns_term RECIPE ''Ingredient'') g;
                g = add (ingredient_uri, ns_term RECIPE ''ingredientName'',
                         Literal (stripped ingredient_name)) g;
                g = (if nonblank ingredient_measure
                     then add (ingredient_uri, ns_term RECIPE ''ingredientMeasure'',
                               Literal (stripped ingredient_measure)) g
                     else g)
            in add (meal_uri, ns_term RECIPE ''hasIngredient'', ingredient_uri) g)
         else g)"

text \<open>
  \<open>add_meal_to_graph(meal)\<close> with the global graph \<open>g\<close> passed in and returned. A raised
  exception leaves the graph as it was when it was raised: the error comes with that graph.
\<close>

definition add_meal_to_graph :: "meal \<Rightarrow> graph \<Rightarrow> (error \<times> graph) + graph" where
  "add_meal_to_graph meal g =
     (case meal ''idMeal'' of
        None \<Rightarrow> Inl (KeyError ''idMeal'', g)
      | Some meal_id \<Rightarrow>
          (let meal_uri = ns_getitem MEAL meal_id;
               g = add (meal_uri, RDF_type, ns_term RECIPE ''Meal'') g;
               g = add_basic_properties meal meal_uri g
           in case add_category meal meal_uri g of
                Inl e \<Rightarrow> Inl e
              | Inr g \<Rightarrow>
                  (case add_cuisine meal meal_uri g of
                     Inl e \<Rightarrow> Inl e
                   | Inr g \<Rightarrow> Inr (fold (add_ingredient meal meal_id meal_uri) [1..<21] g))))"

text \<open>The store after a call, whether it returned or raised.\<close>

fun store_of :: "(error \<times> graph) + graph \<Rightarrow> graph" where
  "store_of (Inr g) = g"
| "store_of (Inl (e, g)) = g"

section \<open>Auxiliary notions for the properties\<close>

text \<open>The truth value of a field used as a condition: a non-empty string.\<close>

fun truthy :: "jval \<Rightarrow> bool" where
  "truthy (JStr v) = (v \<noteq> [])"
| "truthy JNull = False"

text \<open>
  The triples each block of the mapper adds, obtained by running the block on the empty
  store, and their union for a record whose \<open>idMeal\<close> is \<open>meal_id\<close>.
\<close>

definition property_triples :: "meal \<Rightarrow> node \<Rightarrow> string \<Rightarrow> string \<Rightarrow> graph" where
  "property_triples meal meal_uri key pname = add_property meal meal_uri key pname {}"

definition category_triples :: "meal \<Rightarrow> node \<Rightarrow> graph" where
  "category_triples meal meal_uri = store_of (add_category meal meal_uri {})"

definition cuisine_triples :: "meal \<Rightarrow> node \<Rightarrow> graph" where
  "cuisine_triples meal meal_uri = store_of (add_cuisine meal meal_uri {})"

definition ingredient_triples :: "meal \<Rightarrow> jval \<Rightarrow> node \<Rightarrow> nat \<Rightarrow> graph" where
  "ingredient_triples meal meal_id meal_uri i = add_ingredient meal meal_id meal_uri i {}"

definition meal_triples :: "meal \<Rightarrow> jval \<Rightarrow> graph" where
  "meal_triples meal meal_id =
     (let meal_uri = ns_getitem MEAL meal_id in
      {(meal_uri, RDF_type, ns_term RECIPE ''Meal'')}
      \<union> property_triples meal meal_uri ''strMeal'' ''hasName''
      \<union> property_triples meal meal_uri ''strInstructions'' ''hasInstructions''
      \<union> property_triples meal meal_uri ''strMealThumb'' ''hasThumbnail''
      \<union> property_triples meal meal_uri ''strYoutube'' ''hasYoutubeLink''
      \<union> category_triples meal meal_uri
      \<union> cuisine_triples meal meal_uri
      \<union> (\<Union>i\<in>set [1..<21]. ingredient_triples meal meal_id meal_uri i))"

text \<open>
  The four scalar fields with the names of their predicates, the predicate of a triple, the
  predicates the other blocks use, and the decimal digits.
\<close>

definition scalar_fields :: "(string \<times> string) list" where
  "scalar_fields = [(''strMeal'', ''hasName''), (''strInstructions'', ''hasInstructions''),
     (''strMealThumb'', ''hasThumbnail''), (''strYoutube'', ''hasYoutubeLink'')]"

definition predicate :: "triple \<Rightarrow> node" where
  "predicate t = fst (snd t)"

definition other_predicates :: "node set" where
  "other_predicates = {RDF_type, RDFS_label, ns_term RECIPE ''belongsToCategory'',
     ns_term RECIPE ''belongsToCuisine'', ns_term RECIPE ''ingredientName'',
     ns_term RECIPE ''ingredientMeasure'', ns_term RECIPE ''hasIngredient''}"

definition is_digit :: "char \<Rightarrow> bool" where
  "is_digit c = (c \<in> set ''0123456789'')"

text \<open>
  For the ingredient slots, in the words of the specification: the triples that describe
  an Ingredient entity, a field that is non-empty after trimming, and what slot \<open>i\<close> of a
  record is to contribute.
\<close>

definition is_ingredient_triple :: "triple \<Rightarrow> bool" where
  "is_ingredient_triple t =
     (predicate t = ns_term RECIPE ''ingredientName''
      \<or> predicate t = ns_term RECIPE ''ingredientMeasure''
      \<or> predicate t = ns_term RECIPE ''hasIngredient''
      \<or> predicate t = RDF_type \<and> snd (snd t) = ns_term RECIPE ''Ingredient'')"

fun trimmed_nonempty :: "jval \<Rightarrow> bool" where
  "trimmed_nonempty (JStr v) = (strip v \<noteq> [])"
| "trimmed_nonempty JNull = False"

definition claimed_slot_triples :: "meal \<Rightarrow> jval \<Rightarrow> nat \<Rightarrow> graph" where
  "claimed_slot_triples meal meal_id i =
     (let name = dict_get meal (''strIngredient'' @ str_nat i);
          measure = dict_get meal (''strMeasure'' @ str_nat i);
          ingredient = ingredient_uri meal_id i
      in if trimmed_nonempty name
         then {(ingredient, RDF_type, ns_term RECIPE ''Ingredient''),
               (ingredient, ns_term RECIPE ''ingredientName'', Literal (stripped name)),
               (ns_getitem MEAL meal_id, ns_term RECIPE ''hasIngredient'', ingredient)}
              \<union> {t. trimmed_nonempty measure
                     \<and> t = (ingredient, ns_term RECIPE ''ingredientMeasure'',
                            Literal (stripped measure))}
         else {})"

text \<open>The Ingredient entities of a store: the subjects of type Ingredient.\<close>

definition ingredient_entities :: "graph \<Rightarrow> node set" where
  "ingredient_entities g =
     fst ` Set.filter (\<lambda>t. predicate t = RDF_type \<and> snd (snd t) = ns_term RECIPE ''Ingredient'') g"

text \<open>
  For the variants of a label. Two labels differ only by letter case when they are different
  and equal after mapping the letters A to Z to lower case. \<open>py_split\<close> is \<open>str.split()\<close>:
  the words of a string, separated by runs of whitespace; two labels differ only by internal
  whitespace when they have the same words and are different after trimming.
\<close>

definition ascii_upper :: string where "ascii_upper = ''ABCDEFGHIJKLMNOPQRSTUVWXYZ''"
definition ascii_lower :: string where "ascii_lower = ''abcdefghijklmnopqrstuvwxyz''"

definition lower_ascii :: "char \<Rightarrow> char" where
  "lower_ascii c = (case map_of (zip ascii_upper ascii_lower) c of Some l \<Rightarrow> l | None \<Rightarrow> c)"

definition case_variants :: "string \<Rightarrow> string \<Rightarrow> bool" where
  "case_variants s1 s2 = (s1 \<noteq> s2 \<and> map lower_ascii s1 = map lower_ascii s2)"

function split_from :: "string \<Rightarrow> string \<Rightarrow> string list" where
  "split_from word s =
     (if s = [] then (if word = [] then [] else [word])
      else case ws_prefix s of
             Some w \<Rightarrow> (if word = [] then [] else [word]) @ split_from [] (drop (length w) s)
           | None \<Rightarrow> split_from (word @ [hd s]) (tl s))"
  by pat_completeness auto
termination
proof (relation "measure (\<lambda>(word, s). length s)")
  show "wf (measure (\<lambda>(word, s). length s))" by simp
next
  fix word s w assume "s \<noteq> []" "ws_prefix s = Some w"
  then have "w \<noteq> []" using ws_prefix_Some by blast
  with \<open>s \<noteq> []\<close> show "(([], drop (length w) s), (word, s)) \<in> measure (\<lambda>(word, s). length s)"
    by simp
next
  fix word s assume "s \<noteq> []"
  then show "((word @ [hd s], tl s), (word, s)) \<in> measure (\<lambda>(word, s). length s)"
    by simp
qed

declare split_from.simps [simp del]

definition py_split :: "string \<Rightarrow> string list" where
  "py_split s = split_from [] s"

definition whitespace_variants :: "string \<Rightarrow> string \<Rightarrow> bool" where
  "whitespace_variants s1 s2 = (strip s1 \<noteq> strip s2 \<and> py_split s1 = py_split s2)"

section \<open>Example records\<close>


definition beef_stew :: meal where
  "beef_stew = map_of
     [(''idMeal'', JStr ''52874''), (''strMeal'', JStr ''Beef Stew''),
      (''strCategory'', JStr ''Beef''), (''strArea'', JStr ''Italian''),
      (''strIngredient1'', JStr ''Beef''), (''strMeasure1'', JStr ''1kg'')]"

definition beef_stew_triples :: "triple list" where
  "beef_stew_triples =
     [(URIRef ''http://example.org/meal/52874'', RDF_type,
         URIRef ''http://example.org/recipe/Meal''),
      (URIRef ''http://example.org/meal/52874'', URIRef ''http://example.org/recipe/hasName'',
         Literal ''Beef Stew''),
      (URIRef ''http://example.org/category/Beef'', RDF_type,
         URIRef ''http://example.org/recipe/Category''),
      (URIRef ''http://example.org/category/Beef'', RDFS_label, Literal ''Beef''),
      (URIRef ''http://example.org/meal/52874'',
         URIRef ''http://example.org/recipe/belongsToCategory'',
         URIRef ''http://example.org/category/Beef''),
      (URIRef ''http://example.org/cuisine/Italian'', RDF_type,
         URIRef ''http://example.org/recipe/Cuisine''),
      (URIRef ''http://example.org/cuisine/Italian'', RDFS_label, Literal ''Italian''),
      (URIRef ''http://example.org/meal/52874'',
         URIRef ''http://example.org/recipe/belongsToCuisine'',
         URIRef ''http://example.org/cuisine/Italian''),
      (URIRef ''http://example.org/ingredient/52874_ingredient_1'', RDF_type,
         URIRef ''http://example.org/recipe/Ingredient''),
      (URIRef ''http://example.org/ingredient/52874_ingredient_1'',
         URIRef ''http://example.org/recipe/ingredientName'', Literal ''Beef''),
      (URIRef ''http://example.org/ingredient/52874_ingredient_1'',
         URIRef ''http://example.org/recipe/ingredientMeasure'', Literal ''1kg''),
      (URIRef ''http://example.org/meal/52874'',
         URIRef ''http://example.org/recipe/hasIngredient'',
         URIRef ''http://example.org/ingredient/52874_ingredient_1'')]"


definition bare_record :: meal where
  "bare_record = map_of [(''idMeal'', JStr ''52874''), (''strMeal'', JStr ''''),
     (''strYoutube'', JNull), (''strIngredient1'', JStr ''''), (''strMeasure1'', JNull)]"

definition padded_record :: meal where
  "padded_record = map_of
     [(''idMeal'', JStr ''52772''), (''strMeal'', JStr ''Beef Ragu''),
      (''strCategory'', JStr '' Beef ''), (''strArea'', JStr '' Italian '')]"




definition salt_meal_a :: meal where
  "salt_meal_a = map_of [(''idMeal'', JStr ''52874''), (''strIngredient1'', JStr ''salt''),
     (''strIngredient2'', JStr ''salt'')]"

definition salt_meal_b :: meal where
  "salt_meal_b = map_of [(''idMeal'', JStr ''52772''), (''strIngredient1'', JStr ''salt'')]"

definition null_id_salt :: meal where
  "null_id_salt = map_of [(''idMeal'', JNull), (''strIngredient1'', JStr ''salt'')]"

definition none_id_salt :: meal where
  "none_id_salt = map_of [(''idMeal'', JStr ''None''), (''strIngredient1'', JStr ''salt'')]"

section \<open>What each block adds to the store\<close>

lemma property_triples_eq:
  "property_triples meal u key p =
     (if truthy (dict_get meal key)
      then {(u, ns_term RECIPE p, Literal (format_value (dict_get meal key)))} else {})"
  by (simp add: property_triples_def add_property_def add_def split: jval.splits)

lemma add_property_union:
  "add_property meal u key p g = g \<union> property_triples meal u key p"
  by (simp add: property_triples_def add_property_def add_def split: jval.splits)

lemma add_basic_properties_union:
  "add_basic_properties meal u g =
     g \<union> property_triples meal u ''strMeal'' ''hasName''
       \<union> property_triples meal u ''strInstructions'' ''hasInstructions''
       \<union> property_triples meal u ''strMealThumb'' ''hasThumbnail''
       \<union> property_triples meal u ''strYoutube'' ''hasYoutubeLink''"
  by (simp add: add_basic_properties_def add_property_union Un_assoc)

lemma category_triples_eq:
  "category_triples meal u =
     (if truthy (dict_get meal ''strCategory'')
      then (let v = format_value (dict_get meal ''strCategory'');
                category_uri = ns_term CATEGORY (safe_value v)
            in {(category_uri, RDF_type, ns_term RECIPE ''Category''),
                (category_uri, RDFS_label, Literal v),
                (u, ns_term RECIPE ''belongsToCategory'', category_uri)})
      else {})"
  by (auto simp: category_triples_def add_category_def create_uri_ref_def add_def Let_def
           split: jval.splits)

lemma add_category_union:
  "add_category meal u g = Inr (g \<union> category_triples meal u)"
  by (auto simp: category_triples_def add_category_def create_uri_ref_def add_def Let_def
           split: jval.splits)

lemma cuisine_triples_eq:
  "cuisine_triples meal u =
     (if truthy (dict_get meal ''strArea'')
      then (let v = format_value (dict_get meal ''strArea'');
                cuisine_uri = ns_term CUISINE (safe_value v)
            in {(cuisine_uri, RDF_type, ns_term RECIPE ''Cuisine''),
                (cuisine_uri, RDFS_label, Literal v),
                (u, ns_term RECIPE ''belongsToCuisine'', cuisine_uri)})
      else {})"
  by (auto simp: cuisine_triples_def add_cuisine_def create_uri_ref_def add_def Let_def
           split: jval.splits)

lemma add_cuisine_union:
  "add_cuisine meal u g = Inr (g \<union> cuisine_triples meal u)"
  by (auto simp: cuisine_triples_def add_cuisine_def create_uri_ref_def add_def Let_def
           split: jval.splits)

lemma ingredient_triples_eq:
  "ingredient_triples meal idv u i =
     (let name = dict_get meal (''strIngredient'' @ str_nat i);
          measure = dict_get meal (''strMeasure'' @ str_nat i)
      in if nonblank name
         then {(ingredient_uri idv i, RDF_type, ns_term RECIPE ''Ingredient''),
               (ingredient_uri idv i, ns_term RECIPE ''ingredientName'', Literal (stripped name)),
               (u, ns_term RECIPE ''hasIngredient'', ingredient_uri idv i)}
              \<union> (if nonblank measure
                  then {(ingredient_uri idv i, ns_term RECIPE ''ingredientMeasure'',
                         Literal (stripped measure))}
                  else {})
         else {})"
  by (auto simp: ingredient_triples_def add_ingredient_def add_def Let_def)

lemma add_ingredient_union:
  "add_ingredient meal idv u i g = g \<union> ingredient_triples meal idv u i"
  by (auto simp: ingredient_triples_def add_ingredient_def add_def Let_def)

lemma fold_add_ingredient:
  "fold (add_ingredient meal idv u) xs g = g \<union> (\<Union>i\<in>set xs. ingredient_triples meal idv u i)"
  by (induction xs arbitrary: g) (auto simp: add_ingredient_union)

lemma add_meal_to_graph_union:
  "meal ''idMeal'' = Some idv \<Longrightarrow> add_meal_to_graph meal g = Inr (g \<union> meal_triples meal idv)"
  unfolding add_meal_to_graph_def meal_triples_def Let_def
  by (simp add: add_basic_properties_union add_category_union add_cuisine_union
        fold_add_ingredient add_def Un_ac del: set_upt)

lemma nonblank_truthy: "nonblank v \<Longrightarrow> truthy v"
  by (cases v) auto

section \<open>Predicates of the emitted triples\<close>

lemma predicate_category: "t \<in> category_triples meal u \<Longrightarrow> predicate t \<in> other_predicates"
  by (auto simp: category_triples_eq Let_def predicate_def other_predicates_def split: if_splits)

lemma predicate_cuisine: "t \<in> cuisine_triples meal u \<Longrightarrow> predicate t \<in> other_predicates"
  by (auto simp: cuisine_triples_eq Let_def predicate_def other_predicates_def split: if_splits)

lemma predicate_ingredient:
  "t \<in> ingredient_triples meal idv u i \<Longrightarrow> predicate t \<in> other_predicates"
  by (auto simp: ingredient_triples_eq Let_def predicate_def other_predicates_def split: if_splits)

lemma predicate_property:
  "t \<in> property_triples meal u key pname \<Longrightarrow> predicate t = ns_term RECIPE pname"
  by (auto simp: property_triples_eq predicate_def split: if_splits)

lemma scalar_not_other:
  "(key, pname) \<in> set scalar_fields \<Longrightarrow> ns_term RECIPE pname \<notin> other_predicates"
  by (auto simp: scalar_fields_def other_predicates_def ns_term_def RDF_type_def RDFS_label_def
        RECIPE_def)

lemma meal_triples_with_predicate:
  assumes "p \<notin> other_predicates"
  shows "{t \<in> meal_triples meal idv. predicate t = p} =
     {t \<in> property_triples meal (ns_getitem MEAL idv) ''strMeal'' ''hasName''
        \<union> property_triples meal (ns_getitem MEAL idv) ''strInstructions'' ''hasInstructions''
        \<union> property_triples meal (ns_getitem MEAL idv) ''strMealThumb'' ''hasThumbnail''
        \<union> property_triples meal (ns_getitem MEAL idv) ''strYoutube'' ''hasYoutubeLink''.
      predicate t = p}"
proof -
  have ty: "RDF_type \<in> other_predicates" by (simp add: other_predicates_def)
  show ?thesis
    unfolding meal_triples_def Let_def
    using assms ty predicate_category predicate_cuisine predicate_ingredient
    by (auto simp: predicate_def simp del: set_upt)
qed

lemma property_triples_filter:
  "{t \<in> property_triples meal u key q. predicate t = ns_term RECIPE pname} =
     (if q = pname then property_triples meal u key q else {})"
  by (auto simp: property_triples_eq predicate_def ns_term_def)

lemma property_triples_case:
  "property_triples meal u key q =
     (case dict_get meal key of
        JStr v \<Rightarrow> if v \<noteq> [] then {(u, ns_term RECIPE q, Literal v)} else {}
      | JNull \<Rightarrow> {})"
  by (simp add: property_triples_eq split: jval.splits)

section \<open>Decimal formatting and ingredient identifiers\<close>

lemma dec_digits_checked:
  "\<forall>a\<in>set [0..<10]. is_digit (dec_digit a) \<and> (\<forall>b\<in>set [0..<10]. dec_digit a = dec_digit b \<longrightarrow> a = b)"
  by code_simp

lemma dec_digit_inj: "a < 10 \<Longrightarrow> b < 10 \<Longrightarrow> dec_digit a = dec_digit b \<Longrightarrow> a = b"
  using dec_digits_checked by (simp only: set_upt) auto

lemma dec_digit_is_digit: "is_digit (dec_digit n)"
proof -
  have "dec_digit n = dec_digit (n mod 10)" by (simp add: dec_digit_def)
  moreover have "is_digit (dec_digit (n mod 10))"
    using dec_digits_checked by (simp only: set_upt) auto
  ultimately show ?thesis by simp
qed

lemma str_nat_digits: "\<forall>c\<in>set (str_nat n). is_digit c"
proof (induction n rule: str_nat.induct)
  case (1 n)
  then show ?case
    by (subst str_nat.simps) (auto simp: dec_digit_is_digit)
qed

lemma str_nat_nonempty: "str_nat n \<noteq> []"
  by (subst str_nat.simps) simp

lemma str_nat_inj: "str_nat n = str_nat m \<Longrightarrow> n = m"
proof (induction n arbitrary: m rule: str_nat.induct)
  case (1 n)
  show ?case
  proof (cases "n < 10")
    case True
    have m: "m < 10"
    proof (rule ccontr)
      assume "\<not> m < 10"
      then have "str_nat m = str_nat (m div 10) @ [dec_digit (m mod 10)]"
        by (subst str_nat.simps) simp
      moreover have "str_nat n = [dec_digit n]" using True by (subst str_nat.simps) simp
      ultimately show False using "1.prems" str_nat_nonempty [of "m div 10"] by simp
    qed
    have "str_nat n = [dec_digit n]" using True by (subst str_nat.simps) simp
    moreover have "str_nat m = [dec_digit m]" using m by (subst str_nat.simps) simp
    ultimately show ?thesis using "1.prems" True m dec_digit_inj by simp
  next
    case False
    have n: "str_nat n = str_nat (n div 10) @ [dec_digit (n mod 10)]"
      using False by (subst str_nat.simps) simp
    have m: "\<not> m < 10"
    proof
      assume "m < 10"
      then have "str_nat m = [dec_digit m]" by (subst str_nat.simps) simp
      then show False using n "1.prems" str_nat_nonempty [of "n div 10"] by simp
    qed
    then have m': "str_nat m = str_nat (m div 10) @ [dec_digit (m mod 10)]"
      by (subst str_nat.simps) simp
    from n m' "1.prems" have eq: "str_nat (n div 10) = str_nat (m div 10)"
      and d: "dec_digit (n mod 10) = dec_digit (m mod 10)" by simp_all
    from "1.IH" [OF False eq] have "n div 10 = m div 10" .
    moreover from d have "n mod 10 = m mod 10" by (intro dec_digit_inj) simp_all
    ultimately show ?thesis by (metis div_mult_mod_eq)
  qed
qed

lemma digits_suffix_unique:
  assumes "x @ ''_ingredient_'' @ d = y @ ''_ingredient_'' @ e"
    and "\<forall>c\<in>set d. is_digit c" and "\<forall>c\<in>set e. is_digit c"
  shows "x = y \<and> d = e"
proof -
  have nd: "\<not> is_digit CHR ''_''" by (simp add: is_digit_def)
  have tw: "takeWhile is_digit (rev f @ CHR ''_'' # zs) = rev f"
    if "\<forall>c\<in>set f. is_digit c" for zs f
  proof -
    have "takeWhile is_digit (rev f @ CHR ''_'' # zs) = rev f @ takeWhile is_digit (CHR ''_'' # zs)"
      by (rule takeWhile_append2) (use that in simp)
    then show ?thesis using nd by simp
  qed
  have shape: "rev (z @ ''_ingredient_'' @ f) = rev f @ CHR ''_'' # rev (z @ ''_ingredient'')"
    for z f by simp
  have "rev d = takeWhile is_digit (rev (x @ ''_ingredient_'' @ d))"
    unfolding shape using tw [OF assms(2)] by simp
  also have "\<dots> = takeWhile is_digit (rev (y @ ''_ingredient_'' @ e))"
    using assms(1) by simp
  also have "\<dots> = rev e"
    unfolding shape using tw [OF assms(3)] by simp
  finally have "rev d = rev e" .
  then have "d = e" by simp
  then show ?thesis using assms(1) by simp
qed

section \<open>Category and cuisine entities in the store\<close>

lemma category_not_cuisine: "ns_term CATEGORY x \<noteq> ns_term CUISINE y"
  by (simp add: ns_term_def CATEGORY_def CUISINE_def)



lemma store_of_add_meal:
  "store_of (add_meal_to_graph meal g) =
     (case meal ''idMeal'' of None \<Rightarrow> g | Some meal_id \<Rightarrow> g \<union> meal_triples meal meal_id)"
proof (cases "meal ''idMeal''")
  case None
  then show ?thesis by (simp add: add_meal_to_graph_def)
next
  case (Some a)
  then show ?thesis using add_meal_to_graph_union [of meal a g] by simp
qed


lemma safe_value_Italian: "safe_value ''Italian'' = ''Italian''"
  by code_simp


lemma label_in_meal_triples:
  "(c, RDFS_label, l) \<in> meal_triples m idv \<longleftrightarrow>
     (\<exists>v. v \<noteq> [] \<and> l = Literal v \<and>
        (dict_get m ''strCategory'' = JStr v \<and> c = ns_term CATEGORY (safe_value v)
         \<or> dict_get m ''strArea'' = JStr v \<and> c = ns_term CUISINE (safe_value v)))"
proof -
  have p: "(c, RDFS_label, l) \<notin> property_triples m u key q" for u key q
    by (simp add: property_triples_eq RDFS_label_def ns_term_def RECIPE_def)
  have i: "(c, RDFS_label, l) \<notin> ingredient_triples m idv u k" for u k
    by (simp add: ingredient_triples_eq Let_def RDFS_label_def RDF_type_def ns_term_def RECIPE_def)
  have t: "RDFS_label \<noteq> RDF_type" by (simp add: RDFS_label_def RDF_type_def)
  have r: "RDFS_label \<noteq> ns_term RECIPE q" for q
    by (simp add: RDFS_label_def ns_term_def RECIPE_def)
  have cat: "(c, RDFS_label, l) \<in> category_triples m u \<longleftrightarrow>
      (\<exists>v. v \<noteq> [] \<and> l = Literal v \<and> dict_get m ''strCategory'' = JStr v
           \<and> c = ns_term CATEGORY (safe_value v))" for u
    using t r by (cases "dict_get m ''strCategory''") (auto simp: category_triples_eq Let_def)
  have cui: "(c, RDFS_label, l) \<in> cuisine_triples m u \<longleftrightarrow>
      (\<exists>v. v \<noteq> [] \<and> l = Literal v \<and> dict_get m ''strArea'' = JStr v
           \<and> c = ns_term CUISINE (safe_value v))" for u
    using t r by (cases "dict_get m ''strArea''") (auto simp: cuisine_triples_eq Let_def)
  show ?thesis
    unfolding meal_triples_def Let_def Un_iff UN_iff cat cui
    using p i t by auto
qed

lemma category_typed_in_meal_triples:
  "(c, RDF_type, ns_term RECIPE ''Category'') \<in> meal_triples m idv \<longleftrightarrow>
     (\<exists>v. v \<noteq> [] \<and> dict_get m ''strCategory'' = JStr v \<and> c = ns_term CATEGORY (safe_value v))"
proof -
  let ?t = "(c, RDF_type, ns_term RECIPE ''Category'')"
  have r: "RDF_type \<noteq> ns_term RECIPE q" "RDF_type \<noteq> RDFS_label" for q
    by (simp_all add: RDF_type_def RDFS_label_def ns_term_def RECIPE_def)
  have o: "ns_term RECIPE ''Category'' \<noteq> ns_term RECIPE ''Meal''"
    "ns_term RECIPE ''Category'' \<noteq> ns_term RECIPE ''Cuisine''"
    "ns_term RECIPE ''Category'' \<noteq> ns_term RECIPE ''Ingredient''"
    by (simp_all add: ns_term_def)
  have p: "?t \<notin> property_triples m u key q" for u key q
    using r by (simp add: property_triples_eq)
  have i: "?t \<notin> ingredient_triples m idv u k" for u k
    using r o by (simp add: ingredient_triples_eq Let_def)
  have cat: "?t \<in> category_triples m u \<longleftrightarrow>
      (\<exists>v. v \<noteq> [] \<and> dict_get m ''strCategory'' = JStr v \<and> c = ns_term CATEGORY (safe_value v))" for u
    using r by (cases "dict_get m ''strCategory''") (auto simp: category_triples_eq Let_def)
  have cui: "?t \<notin> cuisine_triples m u" for u
    using r o by (simp add: cuisine_triples_eq Let_def)
  show ?thesis
    unfolding meal_triples_def Let_def Un_iff UN_iff cat
    using p i cui o by auto
qed

lemma strip_Beef: "strip ''Beef'' = strip '' Beef ''"
  by code_simp

lemma safe_value_Beef: "safe_value ''Beef'' = ''Beef''"
  by code_simp

section \<open>The ingredient slots\<close>

lemma strip_Nil: "strip [] = []"
  by code_simp

lemma nonblank_trimmed: "nonblank v = trimmed_nonempty v"
  using strip_Nil by (cases v) auto

lemma ingredient_triples_claimed:
  "ingredient_triples meal meal_id (ns_getitem MEAL meal_id) i = claimed_slot_triples meal meal_id i"
  by (auto simp: ingredient_triples_eq claimed_slot_triples_def Let_def nonblank_trimmed)

lemma ingredient_triples_are_ingredient:
  "t \<in> ingredient_triples meal idv u i \<Longrightarrow> is_ingredient_triple t"
  by (auto simp: ingredient_triples_eq Let_def is_ingredient_triple_def predicate_def
           split: if_splits)

lemma other_triples_not_ingredient:
  "t \<in> property_triples meal u key q \<Longrightarrow> (key, q) \<in> set scalar_fields \<Longrightarrow> \<not> is_ingredient_triple t"
  "t \<in> category_triples meal u \<Longrightarrow> \<not> is_ingredient_triple t"
  "t \<in> cuisine_triples meal u \<Longrightarrow> \<not> is_ingredient_triple t"
  "\<not> is_ingredient_triple (u, RDF_type, ns_term RECIPE ''Meal'')"
  by (auto simp: property_triples_eq category_triples_eq cuisine_triples_eq Let_def
        is_ingredient_triple_def predicate_def scalar_fields_def ns_term_def RDF_type_def
        RDFS_label_def RECIPE_def CATEGORY_def CUISINE_def split: if_splits)

lemma range_1_21: "set [1..<21] = {1..20::nat}"
proof -
  have "set [1..<21] = {1..<21::nat}" by (rule set_upt)
  also have "\<dots> = {1..20}" by auto
  finally show ?thesis .
qed

lemma meal_triples_ingredient_part:
  "{t \<in> meal_triples meal idv. is_ingredient_triple t}
     = (\<Union>i\<in>{1..20}. claimed_slot_triples meal idv i)"
proof -
  let ?u = "ns_getitem MEAL idv"
  let ?X = "{(?u, RDF_type, ns_term RECIPE ''Meal'')}
      \<union> property_triples meal ?u ''strMeal'' ''hasName''
      \<union> property_triples meal ?u ''strInstructions'' ''hasInstructions''
      \<union> property_triples meal ?u ''strMealThumb'' ''hasThumbnail''
      \<union> property_triples meal ?u ''strYoutube'' ''hasYoutubeLink''
      \<union> category_triples meal ?u
      \<union> cuisine_triples meal ?u"
  let ?Y = "\<Union>i\<in>{1..20}. ingredient_triples meal idv ?u i"
  have sf: "(''strMeal'', ''hasName'') \<in> set scalar_fields"
    "(''strInstructions'', ''hasInstructions'') \<in> set scalar_fields"
    "(''strMealThumb'', ''hasThumbnail'') \<in> set scalar_fields"
    "(''strYoutube'', ''hasYoutubeLink'') \<in> set scalar_fields"
    by (simp_all add: scalar_fields_def)
  have X: "\<not> is_ingredient_triple t" if "t \<in> ?X" for t
    using that other_triples_not_ingredient(1) [of t meal ?u] sf
      other_triples_not_ingredient(2,3) [of t meal ?u] other_triples_not_ingredient(4) [of ?u]
    unfolding Un_iff singleton_iff by metis
  have Y: "is_ingredient_triple t" if "t \<in> ?Y" for t
    using that ingredient_triples_are_ingredient by blast
  have "meal_triples meal idv = ?X \<union> ?Y"
    unfolding meal_triples_def Let_def range_1_21 ..
  then have "{t \<in> meal_triples meal idv. is_ingredient_triple t} = ?Y"
    using X Y by blast
  then show ?thesis by (simp add: ingredient_triples_claimed)
qed








section \<open>Normalization: what it keeps apart\<close>

lemma hex_digits_checked:
  "\<forall>a\<in>set [0..<16]. \<forall>b\<in>set [0..<16]. hex_digit a = hex_digit b \<longrightarrow> a = b"
  by code_simp

lemma hex_digit_inj: "a < 16 \<Longrightarrow> b < 16 \<Longrightarrow> hex_digit a = hex_digit b \<Longrightarrow> a = b"
  using hex_digits_checked by (simp only: set_upt) auto

lemma hex_pair_inj:
  assumes "hex_digit (of_char c div 16) = hex_digit (of_char d div 16)"
    and "hex_digit (of_char c mod 16) = hex_digit (of_char d mod 16)"
  shows "c = d"
proof -
  let ?m = "of_char c :: nat" and ?n = "of_char d :: nat"
  have "?m < 256" "?n < 256" by simp_all
  then have "?m div 16 < 16" "?n div 16 < 16" by arith+
  then have "?m div 16 = ?n div 16" using assms(1) hex_digit_inj by blast
  moreover have "?m mod 16 = ?n mod 16" using assms(2) by (intro hex_digit_inj) simp_all
  ultimately have "?m = ?n" by (metis div_mult_mod_eq)
  then show ?thesis by simp
qed

lemma percent_not_safe: "CHR ''%'' \<notin> set safe_bytes"
  by (simp add: safe_bytes_def)

lemma quote_byte_prefix_code:
  assumes "quote_byte c @ r = quote_byte d @ s"
  shows "c = d \<and> r = s"
proof -
  consider (ss) "c \<in> set safe_bytes" "d \<in> set safe_bytes"
    | (su) "c \<in> set safe_bytes" "d \<notin> set safe_bytes"
    | (us) "c \<notin> set safe_bytes" "d \<in> set safe_bytes"
    | (uu) "c \<notin> set safe_bytes" "d \<notin> set safe_bytes" by blast
  then show ?thesis
  proof cases
    case ss
    then show ?thesis using assms by (simp add: quote_byte_def)
  next
    case su
    then have "c = CHR ''%''" using assms by (simp add: quote_byte_def)
    then show ?thesis using su(1) percent_not_safe by simp
  next
    case us
    then have "d = CHR ''%''" using assms by (simp add: quote_byte_def)
    then show ?thesis using us(2) percent_not_safe by simp
  next
    case uu
    then have "hex_digit (of_char c div 16) = hex_digit (of_char d div 16)"
      "hex_digit (of_char c mod 16) = hex_digit (of_char d mod 16)" "r = s"
      using assms by (simp_all add: quote_byte_def)
    then show ?thesis using hex_pair_inj by blast
  qed
qed

lemma quote_byte_nonempty: "quote_byte c \<noteq> []"
  by (simp add: quote_byte_def)

lemma quote_inj: "quote s = quote t \<Longrightarrow> s = t"
proof (induction s arbitrary: t)
  case Nil
  then show ?case using quote_byte_nonempty by (cases t) (auto simp: quote_def)
next
  case (Cons c s)
  show ?case
  proof (cases t)
    case Nil
    then show ?thesis using Cons.prems quote_byte_nonempty by (auto simp: quote_def)
  next
    case (Cons d t')
    then have "quote_byte c @ quote s = quote_byte d @ quote t'"
      using Cons.prems by (simp add: quote_def)
    then have "c = d" "quote s = quote t'" using quote_byte_prefix_code by blast+
    then show ?thesis using Cons.IH Cons by simp
  qed
qed

lemma replace_space_inj:
  assumes "replace_space s = replace_space t"
    and "CHR ''_'' \<notin> set s" and "CHR ''_'' \<notin> set t"
  shows "s = t"
  using assms
proof (induction s arbitrary: t)
  case Nil
  then show ?case by (simp add: replace_space_def)
next
  case (Cons c s)
  then obtain d t' where t: "t = d # t'" by (cases t) (auto simp: replace_space_def)
  have "c = d" using Cons.prems t by (auto simp: replace_space_def split: if_splits)
  moreover have "s = t'" using Cons.prems t by (intro Cons.IH) (auto simp: replace_space_def)
  ultimately show ?case using t by simp
qed

lemma lower_ascii_cases:
  "lower_ascii c = c \<or> (c \<in> set ascii_upper \<and> lower_ascii c \<in> set ascii_lower)"
proof (cases "map_of (zip ascii_upper ascii_lower) c")
  case None
  then show ?thesis by (simp add: lower_ascii_def)
next
  case (Some l)
  then have "(c, l) \<in> set (zip ascii_upper ascii_lower)" by (rule map_of_SomeD)
  then have "c \<in> set ascii_upper" "l \<in> set ascii_lower"
    by (auto dest: set_zip_leftD set_zip_rightD)
  then show ?thesis using Some by (simp add: lower_ascii_def)
qed

lemma lower_ascii_eq_nonletter:
  assumes "c \<notin> set ascii_upper" and "c \<notin> set ascii_lower"
  shows "lower_ascii d = c \<longleftrightarrow> d = c"
  using assms lower_ascii_cases [of d] lower_ascii_cases [of c] by auto

lemma whitespace_bytes_checked:
  "\<forall>w\<in>set py_whitespace. \<forall>c\<in>set w. c \<notin> set ascii_upper \<and> c \<notin> set ascii_lower"
  by code_simp

lemma whitespace_bytes_not_letters:
  "w \<in> set py_whitespace \<Longrightarrow> c \<in> set w \<Longrightarrow> c \<notin> set ascii_upper \<and> c \<notin> set ascii_lower"
  using whitespace_bytes_checked by blast

lemma prefix_map_fixed:
  "(\<forall>c\<in>set w. \<forall>d. f d = c \<longleftrightarrow> d = c) \<Longrightarrow> prefix w (map f s) = prefix w s"
proof (induction w arbitrary: s)
  case Nil
  then show ?case by simp
next
  case (Cons a w)
  show ?case
  proof (cases s)
    case Nil
    then show ?thesis by simp
  next
    case (Cons b s')
    have "f b = a \<longleftrightarrow> b = a" using Cons.prems by simp
    moreover have "prefix w (map f s') = prefix w s'" using Cons.prems by (intro Cons.IH) simp
    ultimately show ?thesis using Cons by auto
  qed
qed

lemma whitespace_prefix_lower:
  assumes "w \<in> set py_whitespace"
  shows "prefix w (map lower_ascii s) = prefix w s"
proof (rule prefix_map_fixed)
  show "\<forall>c\<in>set w. \<forall>d. lower_ascii d = c \<longleftrightarrow> d = c"
    using whitespace_bytes_not_letters [OF assms] lower_ascii_eq_nonletter by blast
qed

lemma whitespace_suffix_lower:
  assumes "w \<in> set py_whitespace"
  shows "suffix w (map lower_ascii s) = suffix w s"
proof -
  have "\<forall>c\<in>set (rev w). \<forall>d. lower_ascii d = c \<longleftrightarrow> d = c"
    using whitespace_bytes_not_letters [OF assms] lower_ascii_eq_nonletter by simp
  then have "prefix (rev w) (map lower_ascii (rev s)) = prefix (rev w) (rev s)"
    by (rule prefix_map_fixed)
  then show ?thesis by (simp add: suffix_to_prefix rev_map)
qed

lemma whitespace_fixed_by_lower:
  "w \<in> set py_whitespace \<Longrightarrow> map lower_ascii w = w"
proof -
  assume w: "w \<in> set py_whitespace"
  have "lower_ascii c = c" if "c \<in> set w" for c
    using whitespace_bytes_not_letters [OF w that] lower_ascii_eq_nonletter [of c c] by simp
  then show ?thesis by (simp add: map_idI)
qed

lemma ws_prefix_lower: "ws_prefix (map lower_ascii s) = ws_prefix s"
  unfolding ws_prefix_def
proof (rule find_cong)
  show "py_whitespace = py_whitespace" ..
  show "prefix w (map lower_ascii s) = prefix w s" if "w \<in> set py_whitespace" for w
    using that by (rule whitespace_prefix_lower)
qed

lemma ws_suffix_lower: "ws_suffix (map lower_ascii s) = ws_suffix s"
  unfolding ws_suffix_def
proof (rule find_cong)
  show "py_whitespace = py_whitespace" ..
  show "suffix w (map lower_ascii s) = suffix w s" if "w \<in> set py_whitespace" for w
    using that by (rule whitespace_suffix_lower)
qed

lemma lstrip_None: "ws_prefix s = None \<Longrightarrow> lstrip s = s"
  by (subst lstrip.simps) simp

lemma lstrip_Some: "ws_prefix s = Some w \<Longrightarrow> lstrip s = lstrip (drop (length w) s)"
  by (subst lstrip.simps) simp

lemma rstrip_None: "ws_suffix s = None \<Longrightarrow> rstrip s = s"
  by (subst rstrip.simps) simp

lemma rstrip_Some: "ws_suffix s = Some w \<Longrightarrow> rstrip s = rstrip (take (length s - length w) s)"
  by (subst rstrip.simps) simp

lemma lstrip_lower: "map lower_ascii (lstrip s) = lstrip (map lower_ascii s)"
proof (induction s rule: lstrip.induct)
  case (1 s)
  show ?case
  proof (cases "ws_prefix s")
    case None
    then show ?thesis using lstrip_None [of s] lstrip_None [of "map lower_ascii s"]
      by (simp add: ws_prefix_lower)
  next
    case (Some w)
    have "map lower_ascii (lstrip s) = map lower_ascii (lstrip (drop (length w) s))"
      using Some by (simp add: lstrip_Some)
    also have "\<dots> = lstrip (map lower_ascii (drop (length w) s))"
      using Some by (rule "1.IH")
    also have "\<dots> = lstrip (drop (length w) (map lower_ascii s))"
      by (simp add: drop_map)
    also have "\<dots> = lstrip (map lower_ascii s)"
      using Some lstrip_Some [of "map lower_ascii s" w] by (simp add: ws_prefix_lower)
    finally show ?thesis .
  qed
qed

lemma rstrip_lower: "map lower_ascii (rstrip s) = rstrip (map lower_ascii s)"
proof (induction s rule: rstrip.induct)
  case (1 s)
  show ?case
  proof (cases "ws_suffix s")
    case None
    then show ?thesis using rstrip_None [of s] rstrip_None [of "map lower_ascii s"]
      by (simp add: ws_suffix_lower)
  next
    case (Some w)
    have "map lower_ascii (rstrip s) = map lower_ascii (rstrip (take (length s - length w) s))"
      using Some by (simp add: rstrip_Some)
    also have "\<dots> = rstrip (map lower_ascii (take (length s - length w) s))"
      using Some by (rule "1.IH")
    also have "\<dots> = rstrip (take (length (map lower_ascii s) - length w) (map lower_ascii s))"
      by (simp add: take_map)
    also have "\<dots> = rstrip (map lower_ascii s)"
      using Some rstrip_Some [of "map lower_ascii s" w] by (simp add: ws_suffix_lower)
    finally show ?thesis .
  qed
qed

lemma lstrip_decomp: "\<exists>p. s = p @ lstrip s \<and> map lower_ascii p = p"
proof (induction s rule: lstrip.induct)
  case (1 s)
  show ?case
  proof (cases "ws_prefix s")
    case None
    then show ?thesis by (simp add: lstrip_None)
  next
    case (Some w)
    then have w: "prefix w s" "w \<in> set py_whitespace" using ws_prefix_Some by blast+
    from "1.IH" [OF Some] obtain p where
      p: "drop (length w) s = p @ lstrip (drop (length w) s)" "map lower_ascii p = p" by blast
    have "s = w @ drop (length w) s" using w(1) by (auto simp: prefix_def)
    then have "s = (w @ p) @ lstrip s" using p(1) Some by (simp add: lstrip_Some)
    moreover have "map lower_ascii (w @ p) = w @ p"
      using p(2) whitespace_fixed_by_lower [OF w(2)] by simp
    ultimately show ?thesis by blast
  qed
qed

lemma rstrip_decomp: "\<exists>q. s = rstrip s @ q \<and> map lower_ascii q = q"
proof (induction s rule: rstrip.induct)
  case (1 s)
  show ?case
  proof (cases "ws_suffix s")
    case None
    then show ?thesis by (simp add: rstrip_None)
  next
    case (Some w)
    then have w: "suffix w s" "w \<in> set py_whitespace" using ws_suffix_Some by blast+
    let ?t = "take (length s - length w) s"
    from "1.IH" [OF Some] obtain q where
      q: "?t = rstrip ?t @ q" "map lower_ascii q = q" by blast
    have t: "s = ?t @ w" using w(1) by (auto simp: suffix_def)
    have "rstrip s = rstrip ?t" using Some by (rule rstrip_Some)
    then have "s = rstrip s @ (q @ w)" using t q(1) by (metis append_assoc)
    moreover have "map lower_ascii (q @ w) = q @ w"
      using q(2) whitespace_fixed_by_lower [OF w(2)] by simp
    ultimately show ?thesis by blast
  qed
qed

lemma strip_decomp: "\<exists>p q. s = p @ strip s @ q \<and> map lower_ascii p = p \<and> map lower_ascii q = q"
proof -
  obtain p where p: "s = p @ lstrip s" "map lower_ascii p = p" using lstrip_decomp by blast
  obtain q where q: "lstrip s = rstrip (lstrip s) @ q" "map lower_ascii q = q"
    using rstrip_decomp by blast
  have "s = p @ strip s @ q" using p(1) q(1) by (simp add: strip_def)
  then show ?thesis using p(2) q(2) by blast
qed

lemma strip_lower: "map lower_ascii (strip s) = strip (map lower_ascii s)"
  by (simp add: strip_def rstrip_lower lstrip_lower)

lemma set_strip: "set (strip s) \<subseteq> set s"
proof -
  obtain p q where "s = p @ strip s @ q" using strip_decomp by blast
  then have "set s = set p \<union> set (strip s) \<union> set q" by (metis set_append Un_assoc)
  then show ?thesis by blast
qed

lemma lstrip_case_variants:
  assumes "map lower_ascii s1 = map lower_ascii s2" and "lstrip s1 = lstrip s2"
  shows "s1 = s2"
proof -
  obtain p1 where 1: "s1 = p1 @ lstrip s1" "map lower_ascii p1 = p1"
    using lstrip_decomp by blast
  obtain p2 where 2: "s2 = p2 @ lstrip s2" "map lower_ascii p2 = p2"
    using lstrip_decomp by blast
  have "map lower_ascii s1 = p1 @ map lower_ascii (lstrip s1)" using 1 by (metis map_append)
  moreover have "map lower_ascii s2 = p2 @ map lower_ascii (lstrip s1)"
    using 2 assms(2) by (metis map_append)
  ultimately have "p1 = p2" using assms(1) by simp
  then show ?thesis using 1(1) 2(1) assms(2) by simp
qed

lemma rstrip_case_variants:
  assumes "map lower_ascii s1 = map lower_ascii s2" and "rstrip s1 = rstrip s2"
  shows "s1 = s2"
proof -
  obtain q1 where 1: "s1 = rstrip s1 @ q1" "map lower_ascii q1 = q1"
    using rstrip_decomp by blast
  obtain q2 where 2: "s2 = rstrip s2 @ q2" "map lower_ascii q2 = q2"
    using rstrip_decomp by blast
  have "map lower_ascii s1 = map lower_ascii (rstrip s1) @ q1" using 1 by (metis map_append)
  moreover have "map lower_ascii s2 = map lower_ascii (rstrip s1) @ q2"
    using 2 assms(2) by (metis map_append)
  ultimately have "q1 = q2" using assms(1) by simp
  then show ?thesis using 1(1) 2(1) assms(2) by simp
qed

lemma strip_case_variants:
  assumes "map lower_ascii s1 = map lower_ascii s2" and "strip s1 = strip s2"
  shows "s1 = s2"
proof -
  have "map lower_ascii (lstrip s1) = map lower_ascii (lstrip s2)"
    using assms(1) by (simp add: lstrip_lower)
  moreover have "rstrip (lstrip s1) = rstrip (lstrip s2)"
    using assms(2) by (simp add: strip_def)
  ultimately have "lstrip s1 = lstrip s2" by (rule rstrip_case_variants)
  with assms(1) show ?thesis by (rule lstrip_case_variants)
qed

lemma lower_space_underscore:
  "lower_ascii CHR '' '' = CHR '' ''" "lower_ascii CHR ''_'' = CHR ''_''"
  by code_simp+

lemma replace_space_case_variants:
  assumes "map lower_ascii s = map lower_ascii t" and "replace_space s = replace_space t"
  shows "s = t"
  using assms
proof (induction s arbitrary: t)
  case Nil
  then show ?case by simp
next
  case (Cons c s)
  then obtain d t' where t: "t = d # t'" by (cases t) auto
  have l: "lower_ascii c = lower_ascii d" using Cons.prems(1) t by simp
  have r: "(if c = CHR '' '' then CHR ''_'' else c) = (if d = CHR '' '' then CHR ''_'' else d)"
    using Cons.prems(2) t by (simp add: replace_space_def)
  have "c = d"
    using l r lower_space_underscore by (auto split: if_splits)
  moreover have "s = t'"
    using Cons.prems t by (intro Cons.IH) (simp_all add: replace_space_def)
  ultimately show ?case using t by simp
qed

lemma safe_value_eq_iff:
  "safe_value s1 = safe_value s2 \<longleftrightarrow> replace_space (strip s1) = replace_space (strip s2)"
  using quote_inj by (auto simp: safe_value_def)

lemma create_uri_ref_eq_iff:
  "create_uri_ref namespace s1 = create_uri_ref namespace s2
     \<longleftrightarrow> (s1 = [] \<and> s2 = []) \<or> (s1 \<noteq> [] \<and> s2 \<noteq> [] \<and> safe_value s1 = safe_value s2)"
  by (auto simp: create_uri_ref_def ns_term_def)

lemma variant_examples:
  "case_variants ''Beef'' ''beef''"
  "whitespace_variants ''Side Dish'' ''Side  Dish''"
  "CHR ''_'' \<notin> set ''Side Dish''" "CHR ''_'' \<notin> set ''Side  Dish''"
  "whitespace_variants ''Side Dish'' [CHR ''S'', CHR ''i'', CHR ''d'', CHR ''e'', CHR 0x09,
     CHR ''D'', CHR ''i'', CHR ''s'', CHR ''h'']"
  by code_simp+

section \<open>Ingredient entities and cuisine entities in the store\<close>

lemma ingredient_uri_eq_iff:
  "ingredient_uri a i = ingredient_uri b j \<longleftrightarrow> format_value a = format_value b \<and> i = j"
proof
  assume "ingredient_uri a i = ingredient_uri b j"
  then have "format_value a @ ''_ingredient_'' @ str_nat i
      = format_value b @ ''_ingredient_'' @ str_nat j"
    by (simp add: ingredient_uri_def)
  then have "format_value a = format_value b \<and> str_nat i = str_nat j"
    using str_nat_digits by (intro digits_suffix_unique) simp_all
  then show "format_value a = format_value b \<and> i = j" using str_nat_inj by blast
next
  assume "format_value a = format_value b \<and> i = j"
  then show "ingredient_uri a i = ingredient_uri b j" by (simp add: ingredient_uri_def)
qed

lemma mem_ingredient_entities:
  "s \<in> ingredient_entities g \<longleftrightarrow> (s, RDF_type, ns_term RECIPE ''Ingredient'') \<in> g"
  by (auto simp: ingredient_entities_def predicate_def image_iff)

lemma typed_in_claimed_slot:
  "(s, RDF_type, ns_term RECIPE ''Ingredient'') \<in> claimed_slot_triples meal idv j
     \<longleftrightarrow> trimmed_nonempty (dict_get meal (''strIngredient'' @ str_nat j))
         \<and> s = ingredient_uri idv j"
proof -
  have p: "RDF_type \<noteq> ns_term RECIPE ''ingredientName''"
    "RDF_type \<noteq> ns_term RECIPE ''ingredientMeasure''"
    "RDF_type \<noteq> ns_term RECIPE ''hasIngredient''"
    by (simp_all add: ns_term_def RDF_type_def RECIPE_def)
  show ?thesis
    using p by (auto simp: claimed_slot_triples_def Let_def)
qed

lemma ingredient_entities_of_meal:
  assumes "meal ''idMeal'' = Some idv"
  shows "ingredient_entities (store_of (add_meal_to_graph meal {}))
       = ingredient_uri idv
           ` {i \<in> {1..20}. trimmed_nonempty (dict_get meal (''strIngredient'' @ str_nat i))}"
proof -
  have store: "store_of (add_meal_to_graph meal {}) = meal_triples meal idv"
    using assms by (simp add: store_of_add_meal)
  have "(s, RDF_type, ns_term RECIPE ''Ingredient'') \<in> meal_triples meal idv
      \<longleftrightarrow> (s, RDF_type, ns_term RECIPE ''Ingredient'')
            \<in> (\<Union>j\<in>{1..20}. claimed_slot_triples meal idv j)" for s
  proof -
    have "is_ingredient_triple (s, RDF_type, ns_term RECIPE ''Ingredient'')"
      by (simp add: is_ingredient_triple_def predicate_def)
    then show ?thesis using meal_triples_ingredient_part [of meal idv] by blast
  qed
  then have mem: "s \<in> ingredient_entities (meal_triples meal idv)
      \<longleftrightarrow> (\<exists>j\<in>{1..20}. trimmed_nonempty (dict_get meal (''strIngredient'' @ str_nat j))
               \<and> s = ingredient_uri idv j)" for s
    by (simp only: mem_ingredient_entities UN_iff typed_in_claimed_slot)
  show ?thesis
    unfolding store
  proof (rule set_eqI)
    fix s
    show "s \<in> ingredient_entities (meal_triples meal idv)
      \<longleftrightarrow> s \<in> ingredient_uri idv
           ` {i \<in> {1..20}. trimmed_nonempty (dict_get meal (''strIngredient'' @ str_nat i))}"
      unfolding mem by blast
  qed
qed

lemma salt_slots:
  "{i \<in> {1..20}. trimmed_nonempty (dict_get salt_meal_a (''strIngredient'' @ str_nat i))} = {1, 2}"
proof -
  have "\<forall>i\<in>set [1..<21]. trimmed_nonempty (dict_get salt_meal_a (''strIngredient'' @ str_nat i))
      \<longleftrightarrow> i \<in> set [1, 2]"
    by code_simp
  then show ?thesis unfolding range_1_21 by auto
qed

lemma salt_uris:
  "ingredient_uri (JStr ''52874'') 1 = URIRef ''http://example.org/ingredient/52874_ingredient_1''"
  "ingredient_uri (JStr ''52874'') 2 = URIRef ''http://example.org/ingredient/52874_ingredient_2''"
  by code_simp+

lemma cuisine_typed_in_meal_triples:
  "(c, RDF_type, ns_term RECIPE ''Cuisine'') \<in> meal_triples m idv \<longleftrightarrow>
     (\<exists>v. v \<noteq> [] \<and> dict_get m ''strArea'' = JStr v \<and> c = ns_term CUISINE (safe_value v))"
proof -
  let ?t = "(c, RDF_type, ns_term RECIPE ''Cuisine'')"
  have r: "RDF_type \<noteq> ns_term RECIPE q" "RDF_type \<noteq> RDFS_label" for q
    by (simp_all add: RDF_type_def RDFS_label_def ns_term_def RECIPE_def)
  have o: "ns_term RECIPE ''Cuisine'' \<noteq> ns_term RECIPE ''Meal''"
    "ns_term RECIPE ''Cuisine'' \<noteq> ns_term RECIPE ''Category''"
    "ns_term RECIPE ''Cuisine'' \<noteq> ns_term RECIPE ''Ingredient''"
    by (simp_all add: ns_term_def)
  have p: "?t \<notin> property_triples m u key q" for u key q
    using r by (simp add: property_triples_eq)
  have i: "?t \<notin> ingredient_triples m idv u k" for u k
    using r o by (simp add: ingredient_triples_eq Let_def)
  have cui: "?t \<in> cuisine_triples m u \<longleftrightarrow>
      (\<exists>v. v \<noteq> [] \<and> dict_get m ''strArea'' = JStr v \<and> c = ns_term CUISINE (safe_value v))" for u
    using r by (cases "dict_get m ''strArea''") (auto simp: cuisine_triples_eq Let_def)
  have cat: "?t \<notin> category_triples m u" for u
    using r o by (simp add: category_triples_eq Let_def)
  show ?thesis
    unfolding meal_triples_def Let_def Un_iff UN_iff cui
    using p i cat o by auto
qed

lemma strip_Italian: "strip ''Italian'' = strip '' Italian ''"
  by code_simp

section \<open>Properties of the mapper\<close>

text \<open>
  C1, as the code has it. Mapping the Beef Stew record (idMeal 52874, strMeal "Beef Stew",
  strCategory "Beef", strArea "Italian", strIngredient1 "Beef", strMeasure1 "1kg", nothing
  else) into an empty store gives exactly twelve triples, all different: the Meal type
  triple, the hasName triple, type, label and relation for the Category, type, label and
  relation for the Cuisine, and type, name, measure and relation for the one Ingredient.
\<close>

theorem beef_stew_twelve_triples:
  "add_meal_to_graph beef_stew {} = Inr (set beef_stew_triples)
   \<and> length beef_stew_triples = 12 \<and> distinct beef_stew_triples
   \<and> card (store_of (add_meal_to_graph beef_stew {})) = 12"
  by code_simp

text \<open>
  C1 as stated asks for nine triples in total; the store holds twelve after the call.
\<close>

theorem beef_stew_not_nine_triples:
  "card (store_of (add_meal_to_graph beef_stew {})) \<noteq> 9"
  by code_simp

text \<open>
  C2. For every record with an identifier and every store, mapping the record a second
  time into the store obtained from the first mapping succeeds and leaves that store as it
  is: the second call adds nothing.
\<close>

theorem mapping_twice_same_store:
  assumes "meal ''idMeal'' \<noteq> None"
  shows "\<exists>g1. add_meal_to_graph meal g = Inr g1 \<and> add_meal_to_graph meal g1 = Inr g1"
proof -
  from assms obtain idv where id: "meal ''idMeal'' = Some idv" by auto
  have "add_meal_to_graph meal g = Inr (g \<union> meal_triples meal idv)"
    using id by (rule add_meal_to_graph_union [of meal idv g])
  moreover have "add_meal_to_graph meal (g \<union> meal_triples meal idv)
      = Inr (g \<union> meal_triples meal idv)"
    using add_meal_to_graph_union [of meal idv "g \<union> meal_triples meal idv"] id
    by (simp add: Un_assoc)
  ultimately show ?thesis by blast
qed

theorem mapping_twice_same_store_witness:
  "beef_stew ''idMeal'' \<noteq> None
   \<and> (\<exists>g1. add_meal_to_graph beef_stew {} = Inr g1 \<and> add_meal_to_graph beef_stew g1 = Inr g1)"
  using mapping_twice_same_store [of beef_stew "{}"] by (simp add: beef_stew_def)






text \<open>
  C5. For a record with an identifier and each of the four scalar fields (strMeal,
  strInstructions, strMealThumb, strYoutube): the triples with the field's predicate in the
  store after the call are those that were there before, plus exactly the one triple
  (Meal, predicate, Literal(value)) when the field is a non-empty string, and nothing when
  it is absent, null or empty. Into an empty store that is one triple or none.
\<close>

theorem scalar_field_one_triple_or_none:
  assumes "meal ''idMeal'' = Some meal_id" and "(key, pname) \<in> set scalar_fields"
  shows "{t \<in> store_of (add_meal_to_graph meal g). predicate t = ns_term RECIPE pname}
       = {t \<in> g. predicate t = ns_term RECIPE pname}
         \<union> (case dict_get meal key of
              JStr v \<Rightarrow> if v \<noteq> []
                then {(ns_getitem MEAL meal_id, ns_term RECIPE pname, Literal v)} else {}
            | JNull \<Rightarrow> {})"
proof -
  let ?p = "ns_term RECIPE pname" and ?u = "ns_getitem MEAL meal_id"
  have store: "store_of (add_meal_to_graph meal g) = g \<union> meal_triples meal meal_id"
    using add_meal_to_graph_union [of meal meal_id g] assms(1) by simp
  have split: "{t \<in> g \<union> meal_triples meal meal_id. predicate t = ?p}
      = {t \<in> g. predicate t = ?p} \<union> {t \<in> meal_triples meal meal_id. predicate t = ?p}"
    by blast
  have "?p \<notin> other_predicates" using assms(2) by (rule scalar_not_other)
  then have "{t \<in> meal_triples meal meal_id. predicate t = ?p} =
     {t \<in> property_triples meal ?u ''strMeal'' ''hasName''. predicate t = ?p}
     \<union> {t \<in> property_triples meal ?u ''strInstructions'' ''hasInstructions''. predicate t = ?p}
     \<union> {t \<in> property_triples meal ?u ''strMealThumb'' ''hasThumbnail''. predicate t = ?p}
     \<union> {t \<in> property_triples meal ?u ''strYoutube'' ''hasYoutubeLink''. predicate t = ?p}"
    using meal_triples_with_predicate [of ?p meal meal_id] by blast
  also have "\<dots> = property_triples meal ?u key pname"
    using assms(2) unfolding property_triples_filter
    by (auto simp: scalar_fields_def)
  finally show ?thesis
    unfolding store split by (simp add: property_triples_case)
qed

theorem scalar_field_one_triple_or_none_witness:
  "beef_stew ''idMeal'' = Some (JStr ''52874'')
   \<and> (''strYoutube'', ''hasYoutubeLink'') \<in> set scalar_fields
   \<and> (''strMeal'', ''hasName'') \<in> set scalar_fields
   \<and> {t \<in> store_of (add_meal_to_graph beef_stew {}).
         predicate t = ns_term RECIPE ''hasYoutubeLink''} = {}
   \<and> {t \<in> store_of (add_meal_to_graph beef_stew {}). predicate t = ns_term RECIPE ''hasName''}
       = {(URIRef ''http://example.org/meal/52874'', URIRef ''http://example.org/recipe/hasName'',
           Literal ''Beef Stew'')}"
proof -
  have id: "beef_stew ''idMeal'' = Some (JStr ''52874'')" by (simp add: beef_stew_def)
  have y: "(''strYoutube'', ''hasYoutubeLink'') \<in> set scalar_fields"
    and n: "(''strMeal'', ''hasName'') \<in> set scalar_fields"
    by (simp_all add: scalar_fields_def)
  have gy: "dict_get beef_stew ''strYoutube'' = JNull"
    and gn: "dict_get beef_stew ''strMeal'' = JStr ''Beef Stew''"
    by (simp_all add: beef_stew_def dict_get_def)
  show ?thesis
    using scalar_field_one_triple_or_none
        [of beef_stew "JStr ''52874''" "''strYoutube''" "''hasYoutubeLink''" "{}"]
      scalar_field_one_triple_or_none
        [of beef_stew "JStr ''52874''" "''strMeal''" "''hasName''" "{}"] id y n
    by (simp add: gy gn ns_term_def MEAL_def RECIPE_def)
qed



text \<open>
  C7 as stated fails for a null identifier: a record whose \<open>idMeal\<close> is null and a record
  whose \<open>idMeal\<close> is the string "None" have different ids, and slot 1 of both is the entity
  \<open>http://example.org/ingredient/None_ingredient_1\<close>.
\<close>

theorem null_and_None_ids_share_ingredient:
  "null_id_salt ''idMeal'' = Some JNull \<and> none_id_salt ''idMeal'' = Some (JStr ''None'')
   \<and> JNull \<noteq> JStr ''None''
   \<and> ingredient_entities (store_of (add_meal_to_graph null_id_salt {}))
       = {URIRef ''http://example.org/ingredient/None_ingredient_1''}
   \<and> ingredient_entities (store_of (add_meal_to_graph none_id_salt {}))
       = {URIRef ''http://example.org/ingredient/None_ingredient_1''}"
  by code_simp

text \<open>
  C7, amended. Mapping a record with an identifier into the empty store gives one Ingredient
  entity for each slot 1 to 20 whose name is non-empty after trimming, and as many entities
  as there are such slots: two slots of one record never share an entity, whatever their
  names. The URIs of two slots are equal only if the ids are formatted alike and the slot
  indices are equal; so two records whose ids are formatted differently (two different
  strings, for one) have no Ingredient entity in common.
\<close>

theorem ingredient_entities_never_shared:
  assumes "m1 ''idMeal'' = Some id1" and "m2 ''idMeal'' = Some id2"
  shows "ingredient_entities (store_of (add_meal_to_graph m1 {}))
           = ingredient_uri id1
               ` {i \<in> {1..20}. trimmed_nonempty (dict_get m1 (''strIngredient'' @ str_nat i))}
     \<and> card (ingredient_entities (store_of (add_meal_to_graph m1 {})))
           = card {i \<in> {1..20}. trimmed_nonempty (dict_get m1 (''strIngredient'' @ str_nat i))}
     \<and> (ingredient_uri id1 i = ingredient_uri id2 j
           \<longleftrightarrow> format_value id1 = format_value id2 \<and> i = j)
     \<and> (format_value id1 \<noteq> format_value id2 \<longrightarrow>
           ingredient_entities (store_of (add_meal_to_graph m1 {}))
             \<inter> ingredient_entities (store_of (add_meal_to_graph m2 {})) = {})"
proof (intro conjI impI)
  show e1: "ingredient_entities (store_of (add_meal_to_graph m1 {}))
           = ingredient_uri id1
               ` {i \<in> {1..20}. trimmed_nonempty (dict_get m1 (''strIngredient'' @ str_nat i))}"
    using assms(1) by (rule ingredient_entities_of_meal [of m1 id1])
  have "inj_on (ingredient_uri id1)
      {i \<in> {1..20}. trimmed_nonempty (dict_get m1 (''strIngredient'' @ str_nat i))}"
    by (rule inj_onI) (simp add: ingredient_uri_eq_iff)
  then show "card (ingredient_entities (store_of (add_meal_to_graph m1 {})))
           = card {i \<in> {1..20}. trimmed_nonempty (dict_get m1 (''strIngredient'' @ str_nat i))}"
    unfolding e1 by (rule card_image)
  show "ingredient_uri id1 i = ingredient_uri id2 j
           \<longleftrightarrow> format_value id1 = format_value id2 \<and> i = j"
    by (rule ingredient_uri_eq_iff)
next
  assume ne: "format_value id1 \<noteq> format_value id2"
  have e1: "ingredient_entities (store_of (add_meal_to_graph m1 {}))
           = ingredient_uri id1
               ` {i \<in> {1..20}. trimmed_nonempty (dict_get m1 (''strIngredient'' @ str_nat i))}"
    using assms(1) by (rule ingredient_entities_of_meal [of m1 id1])
  have e2: "ingredient_entities (store_of (add_meal_to_graph m2 {}))
           = ingredient_uri id2
               ` {i \<in> {1..20}. trimmed_nonempty (dict_get m2 (''strIngredient'' @ str_nat i))}"
    using assms(2) by (rule ingredient_entities_of_meal [of m2 id2])
  show "ingredient_entities (store_of (add_meal_to_graph m1 {}))
             \<inter> ingredient_entities (store_of (add_meal_to_graph m2 {})) = {}"
    unfolding e1 e2 using ne by (auto simp: ingredient_uri_eq_iff)
qed

theorem ingredient_entities_never_shared_witness:
  "salt_meal_a ''idMeal'' = Some (JStr ''52874'') \<and> salt_meal_b ''idMeal'' = Some (JStr ''52772'')
   \<and> dict_get salt_meal_a ''strIngredient1'' = JStr ''salt''
   \<and> dict_get salt_meal_a ''strIngredient2'' = JStr ''salt''
   \<and> dict_get salt_meal_b ''strIngredient1'' = JStr ''salt''
   \<and> ingredient_entities (store_of (add_meal_to_graph salt_meal_a {}))
       = {URIRef ''http://example.org/ingredient/52874_ingredient_1'',
          URIRef ''http://example.org/ingredient/52874_ingredient_2''}
   \<and> card (ingredient_entities (store_of (add_meal_to_graph salt_meal_a {}))) = 2
   \<and> format_value (JStr ''52874'') \<noteq> format_value (JStr ''52772'')
   \<and> ingredient_entities (store_of (add_meal_to_graph salt_meal_a {}))
         \<inter> ingredient_entities (store_of (add_meal_to_graph salt_meal_b {})) = {}"
proof -
  have ids: "salt_meal_a ''idMeal'' = Some (JStr ''52874'')"
    "salt_meal_b ''idMeal'' = Some (JStr ''52772'')"
    by (simp_all add: salt_meal_a_def salt_meal_b_def)
  have names: "dict_get salt_meal_a ''strIngredient1'' = JStr ''salt''"
    "dict_get salt_meal_a ''strIngredient2'' = JStr ''salt''"
    "dict_get salt_meal_b ''strIngredient1'' = JStr ''salt''"
    by (simp_all add: salt_meal_a_def salt_meal_b_def dict_get_def)
  have ne: "format_value (JStr ''52874'') \<noteq> format_value (JStr ''52772'')" by simp
  have inst: "ingredient_entities (store_of (add_meal_to_graph salt_meal_a {}))
           = ingredient_uri (JStr ''52874'') ` {1, 2}
     \<and> card (ingredient_entities (store_of (add_meal_to_graph salt_meal_a {})))
           = card {1, 2 :: nat}
     \<and> ingredient_entities (store_of (add_meal_to_graph salt_meal_a {}))
             \<inter> ingredient_entities (store_of (add_meal_to_graph salt_meal_b {})) = {}"
    using ingredient_entities_never_shared
        [of salt_meal_a "JStr ''52874''" salt_meal_b "JStr ''52772''" 1 1] ids ne
    unfolding salt_slots by blast
  have img: "ingredient_uri (JStr ''52874'') ` {1, 2}
      = {URIRef ''http://example.org/ingredient/52874_ingredient_1'',
         URIRef ''http://example.org/ingredient/52874_ingredient_2''}"
    by (simp only: image_insert image_empty salt_uris)
  have two: "card {1, 2 :: nat} = 2" by simp
  have e: "ingredient_entities (store_of (add_meal_to_graph salt_meal_a {}))
       = {URIRef ''http://example.org/ingredient/52874_ingredient_1'',
          URIRef ''http://example.org/ingredient/52874_ingredient_2''}"
    using inst img by metis
  have c: "card (ingredient_entities (store_of (add_meal_to_graph salt_meal_a {}))) = 2"
    using inst two by metis
  have d: "ingredient_entities (store_of (add_meal_to_graph salt_meal_a {}))
         \<inter> ingredient_entities (store_of (add_meal_to_graph salt_meal_b {})) = {}"
    using inst by (rule conjunct2 [THEN conjunct2])
  show ?thesis
    using ids names e c ne d by (intro conjI)
qed

text \<open>
  C8 as stated fails for labels with underscores: "x  _ y" and "x _  y" have the same words
  and differ only in where the double space is, and both are normalized to x____y, so they
  give one entity.
\<close>

theorem whitespace_variants_merged_example:
  "whitespace_variants ''x  _ y'' ''x _  y''
   \<and> safe_value ''x  _ y'' = safe_value ''x _  y''
   \<and> create_uri_ref CATEGORY ''x  _ y'' = create_uri_ref CATEGORY ''x _  y''"
  by code_simp

text \<open>
  C8, amended. Two labels that differ only by letter case always have different normalized
  identifiers and give different entities; two labels without underscore that differ only
  by internal whitespace (a tab or a double space for a single space) have different
  normalized identifiers and give different entities. In general two labels have the same
  normalized identifier exactly when their trimmed forms are equal once every space is
  replaced by an underscore, so nothing but a space and an underscore is ever merged.
\<close>

theorem variants_not_merged:
  "(case_variants s1 s2 \<longrightarrow>
      safe_value s1 \<noteq> safe_value s2
      \<and> create_uri_ref namespace s1 \<noteq> create_uri_ref namespace s2)
   \<and> (whitespace_variants s1 s2 \<and> CHR ''_'' \<notin> set s1 \<and> CHR ''_'' \<notin> set s2 \<longrightarrow>
      safe_value s1 \<noteq> safe_value s2
      \<and> create_uri_ref namespace s1 \<noteq> create_uri_ref namespace s2)
   \<and> (safe_value s1 = safe_value s2
        \<longleftrightarrow> replace_space (strip s1) = replace_space (strip s2))"
proof (intro conjI impI)
  show "safe_value s1 = safe_value s2
        \<longleftrightarrow> replace_space (strip s1) = replace_space (strip s2)"
    by (rule safe_value_eq_iff)
next
  assume cv: "case_variants s1 s2"
  then have ne: "s1 \<noteq> s2" and lo: "map lower_ascii s1 = map lower_ascii s2"
    by (simp_all add: case_variants_def)
  have "strip s1 \<noteq> strip s2" using ne lo strip_case_variants by blast
  moreover have "map lower_ascii (strip s1) = map lower_ascii (strip s2)"
    using lo by (simp add: strip_lower)
  ultimately have "replace_space (strip s1) \<noteq> replace_space (strip s2)"
    using replace_space_case_variants by blast
  then show sv: "safe_value s1 \<noteq> safe_value s2" by (simp add: safe_value_eq_iff)
  have "s1 \<noteq> [] \<or> s2 \<noteq> []" using ne by auto
  then show "create_uri_ref namespace s1 \<noteq> create_uri_ref namespace s2"
    using sv by (auto simp: create_uri_ref_eq_iff)
next
  assume wv: "whitespace_variants s1 s2 \<and> CHR ''_'' \<notin> set s1 \<and> CHR ''_'' \<notin> set s2"
  then have ne: "strip s1 \<noteq> strip s2" by (simp add: whitespace_variants_def)
  have "CHR ''_'' \<notin> set (strip s1)" "CHR ''_'' \<notin> set (strip s2)"
    using wv set_strip by blast+
  then have "replace_space (strip s1) \<noteq> replace_space (strip s2)"
    using ne replace_space_inj by blast
  then show sv: "safe_value s1 \<noteq> safe_value s2" by (simp add: safe_value_eq_iff)
  have "s1 \<noteq> [] \<or> s2 \<noteq> []" using ne by auto
  then show "create_uri_ref namespace s1 \<noteq> create_uri_ref namespace s2"
    using sv by (auto simp: create_uri_ref_eq_iff)
qed

theorem variants_not_merged_witness:
  "case_variants ''Beef'' ''beef''
   \<and> safe_value ''Beef'' \<noteq> safe_value ''beef''
   \<and> create_uri_ref CATEGORY ''Beef'' \<noteq> create_uri_ref CATEGORY ''beef''
   \<and> whitespace_variants ''Side Dish'' ''Side  Dish''
   \<and> CHR ''_'' \<notin> set ''Side Dish'' \<and> CHR ''_'' \<notin> set ''Side  Dish''
   \<and> safe_value ''Side Dish'' \<noteq> safe_value ''Side  Dish''
   \<and> create_uri_ref CATEGORY ''Side Dish'' \<noteq> create_uri_ref CATEGORY ''Side  Dish''"
  using variants_not_merged [of "''Beef''" "''beef''" CATEGORY]
    variants_not_merged [of "''Side Dish''" "''Side  Dish''" CATEGORY]
    variant_examples(1-4)
  by blast

text \<open>
  C9. The label literal is the raw field value, for the Category and for the Cuisine. For
  two records whose non-empty strCategory fields differ but are equal after trimming, the
  store obtained by mapping both into the empty store has exactly one entity of type
  Category, and that entity carries exactly the two raw values as rdfs:label literals; the
  same holds of two such strArea fields and the one entity of type Cuisine.
\<close>

theorem raw_labels_on_one_entity:
  assumes "m1 ''idMeal'' = Some id1" and "m2 ''idMeal'' = Some id2"
    and "s1 \<noteq> []" and "s2 \<noteq> []" and "s1 \<noteq> s2" and "strip s1 = strip s2"
  shows "(dict_get m1 ''strCategory'' = JStr s1 \<and> dict_get m2 ''strCategory'' = JStr s2 \<longrightarrow>
           {c. (c, RDF_type, ns_term RECIPE ''Category'')
                \<in> store_of (add_meal_to_graph m2 (store_of (add_meal_to_graph m1 {})))}
             = {ns_term CATEGORY (safe_value s1)}
           \<and> {l. (ns_term CATEGORY (safe_value s1), RDFS_label, l)
                \<in> store_of (add_meal_to_graph m2 (store_of (add_meal_to_graph m1 {})))}
             = {Literal s1, Literal s2}
           \<and> card {l. (ns_term CATEGORY (safe_value s1), RDFS_label, l)
                \<in> store_of (add_meal_to_graph m2 (store_of (add_meal_to_graph m1 {})))} = 2)
       \<and> (dict_get m1 ''strArea'' = JStr s1 \<and> dict_get m2 ''strArea'' = JStr s2 \<longrightarrow>
           {c. (c, RDF_type, ns_term RECIPE ''Cuisine'')
                \<in> store_of (add_meal_to_graph m2 (store_of (add_meal_to_graph m1 {})))}
             = {ns_term CUISINE (safe_value s1)}
           \<and> {l. (ns_term CUISINE (safe_value s1), RDFS_label, l)
                \<in> store_of (add_meal_to_graph m2 (store_of (add_meal_to_graph m1 {})))}
             = {Literal s1, Literal s2}
           \<and> card {l. (ns_term CUISINE (safe_value s1), RDFS_label, l)
                \<in> store_of (add_meal_to_graph m2 (store_of (add_meal_to_graph m1 {})))} = 2)"
proof -
  let ?G = "store_of (add_meal_to_graph m2 (store_of (add_meal_to_graph m1 {})))"
  have G: "?G = meal_triples m1 id1 \<union> meal_triples m2 id2"
    using assms(1,2) by (simp add: store_of_add_meal)
  have sv: "safe_value s2 = safe_value s1"
    using assms(6) by (simp add: safe_value_def)
  have two: "card {Literal s1, Literal s2} = 2" using assms(5) by simp
  have cc: "ns_term CUISINE x \<noteq> ns_term CATEGORY y" for x y
    using category_not_cuisine [of y x] by simp
  have cat: "{c. (c, RDF_type, ns_term RECIPE ''Category'') \<in> ?G}
             = {ns_term CATEGORY (safe_value s1)}
           \<and> {l. (ns_term CATEGORY (safe_value s1), RDFS_label, l) \<in> ?G}
             = {Literal s1, Literal s2}
           \<and> card {l. (ns_term CATEGORY (safe_value s1), RDFS_label, l) \<in> ?G} = 2"
    if f: "dict_get m1 ''strCategory'' = JStr s1 \<and> dict_get m2 ''strCategory'' = JStr s2"
  proof -
    have ent: "{c. (c, RDF_type, ns_term RECIPE ''Category'') \<in> ?G}
        = {ns_term CATEGORY (safe_value s1)}"
      unfolding G using f assms(3,4) sv
      by (auto simp: category_typed_in_meal_triples)
    have lab: "{l. (ns_term CATEGORY (safe_value s1), RDFS_label, l) \<in> ?G}
        = {Literal s1, Literal s2}"
      unfolding G using f assms(3,4) sv category_not_cuisine
      by (auto simp: label_in_meal_triples)
    from ent lab two show ?thesis by simp
  qed
  have cui: "{c. (c, RDF_type, ns_term RECIPE ''Cuisine'') \<in> ?G}
             = {ns_term CUISINE (safe_value s1)}
           \<and> {l. (ns_term CUISINE (safe_value s1), RDFS_label, l) \<in> ?G}
             = {Literal s1, Literal s2}
           \<and> card {l. (ns_term CUISINE (safe_value s1), RDFS_label, l) \<in> ?G} = 2"
    if f: "dict_get m1 ''strArea'' = JStr s1 \<and> dict_get m2 ''strArea'' = JStr s2"
  proof -
    have ent: "{c. (c, RDF_type, ns_term RECIPE ''Cuisine'') \<in> ?G}
        = {ns_term CUISINE (safe_value s1)}"
      unfolding G using f assms(3,4) sv
      by (auto simp: cuisine_typed_in_meal_triples)
    have lab: "{l. (ns_term CUISINE (safe_value s1), RDFS_label, l) \<in> ?G}
        = {Literal s1, Literal s2}"
      unfolding G using f assms(3,4) sv cc
      by (auto simp: label_in_meal_triples)
    from ent lab two show ?thesis by simp
  qed
  show ?thesis using cat cui by blast
qed

theorem raw_labels_on_one_entity_witness:
  "beef_stew ''idMeal'' = Some (JStr ''52874'') \<and> padded_record ''idMeal'' = Some (JStr ''52772'')
   \<and> dict_get beef_stew ''strCategory'' = JStr ''Beef''
   \<and> dict_get padded_record ''strCategory'' = JStr '' Beef ''
   \<and> ''Beef'' \<noteq> '' Beef '' \<and> strip ''Beef'' = strip '' Beef ''
   \<and> {c. (c, RDF_type, URIRef ''http://example.org/recipe/Category'')
          \<in> store_of (add_meal_to_graph padded_record (store_of (add_meal_to_graph beef_stew {})))}
       = {URIRef ''http://example.org/category/Beef''}
   \<and> {l. (URIRef ''http://example.org/category/Beef'', RDFS_label, l)
          \<in> store_of (add_meal_to_graph padded_record (store_of (add_meal_to_graph beef_stew {})))}
       = {Literal ''Beef'', Literal '' Beef ''}
   \<and> dict_get beef_stew ''strArea'' = JStr ''Italian''
   \<and> dict_get padded_record ''strArea'' = JStr '' Italian ''
   \<and> ''Italian'' \<noteq> '' Italian '' \<and> strip ''Italian'' = strip '' Italian ''
   \<and> {c. (c, RDF_type, URIRef ''http://example.org/recipe/Cuisine'')
          \<in> store_of (add_meal_to_graph padded_record (store_of (add_meal_to_graph beef_stew {})))}
       = {URIRef ''http://example.org/cuisine/Italian''}
   \<and> {l. (URIRef ''http://example.org/cuisine/Italian'', RDFS_label, l)
          \<in> store_of (add_meal_to_graph padded_record (store_of (add_meal_to_graph beef_stew {})))}
       = {Literal ''Italian'', Literal '' Italian ''}"
proof -
  have ids: "beef_stew ''idMeal'' = Some (JStr ''52874'')"
    "padded_record ''idMeal'' = Some (JStr ''52772'')"
    by (simp_all add: beef_stew_def padded_record_def)
  have cats: "dict_get beef_stew ''strCategory'' = JStr ''Beef''"
    "dict_get padded_record ''strCategory'' = JStr '' Beef ''"
    by (simp_all add: beef_stew_def padded_record_def dict_get_def)
  have areas: "dict_get beef_stew ''strArea'' = JStr ''Italian''"
    "dict_get padded_record ''strArea'' = JStr '' Italian ''"
    by (simp_all add: beef_stew_def padded_record_def dict_get_def)
  have c: "{c. (c, RDF_type, URIRef ''http://example.org/recipe/Category'')
          \<in> store_of (add_meal_to_graph padded_record (store_of (add_meal_to_graph beef_stew {})))}
       = {URIRef ''http://example.org/category/Beef''}
   \<and> {l. (URIRef ''http://example.org/category/Beef'', RDFS_label, l)
          \<in> store_of (add_meal_to_graph padded_record (store_of (add_meal_to_graph beef_stew {})))}
       = {Literal ''Beef'', Literal '' Beef ''}"
    using raw_labels_on_one_entity [of beef_stew "JStr ''52874''" padded_record
        "JStr ''52772''" "''Beef''" "'' Beef ''"] ids cats strip_Beef
    by (simp add: safe_value_Beef ns_term_def CATEGORY_def RECIPE_def)
  have a: "{c. (c, RDF_type, URIRef ''http://example.org/recipe/Cuisine'')
          \<in> store_of (add_meal_to_graph padded_record (store_of (add_meal_to_graph beef_stew {})))}
       = {URIRef ''http://example.org/cuisine/Italian''}
   \<and> {l. (URIRef ''http://example.org/cuisine/Italian'', RDFS_label, l)
          \<in> store_of (add_meal_to_graph padded_record (store_of (add_meal_to_graph beef_stew {})))}
       = {Literal ''Italian'', Literal '' Italian ''}"
    using raw_labels_on_one_entity [of beef_stew "JStr ''52874''" padded_record
        "JStr ''52772''" "''Italian''" "'' Italian ''"] ids areas strip_Italian
    by (simp add: safe_value_Italian ns_term_def CUISINE_def RECIPE_def)
  have ne: "''Beef'' \<noteq> '' Beef ''" "''Italian'' \<noteq> '' Italian ''" by simp_all
  show ?thesis
    using ids cats areas ne strip_Beef strip_Italian c a by (intro conjI) blast+
qed

text \<open>
  C10. For every record with an identifier the Meal type triple is in the store after the
  call, whatever the other fields are; and when every other field is absent, null or the
  empty string, mapping into the empty store gives exactly that one triple.
\<close>

theorem meal_type_triple_unconditional:
  assumes "meal ''idMeal'' = Some meal_id"
  shows "(ns_getitem MEAL meal_id, RDF_type, ns_term RECIPE ''Meal'')
           \<in> store_of (add_meal_to_graph meal g)
         \<and> ((\<forall>key. key \<noteq> ''idMeal'' \<longrightarrow> \<not> truthy (dict_get meal key)) \<longrightarrow>
              add_meal_to_graph meal {}
                = Inr {(ns_getitem MEAL meal_id, RDF_type, ns_term RECIPE ''Meal'')})"
proof (intro conjI impI)
  show "(ns_getitem MEAL meal_id, RDF_type, ns_term RECIPE ''Meal'')
           \<in> store_of (add_meal_to_graph meal g)"
    using add_meal_to_graph_union [of meal meal_id g] assms
    by (simp add: meal_triples_def Let_def)
next
  assume empty: "\<forall>key. key \<noteq> ''idMeal'' \<longrightarrow> \<not> truthy (dict_get meal key)"
  have ing: "ingredient_triples meal meal_id u i = {}" for u i
  proof -
    have "\<not> truthy (dict_get meal (''strIngredient'' @ str_nat i))" using empty by simp
    then have "\<not> nonblank (dict_get meal (''strIngredient'' @ str_nat i))"
      using nonblank_truthy by blast
    then show ?thesis by (simp add: ingredient_triples_eq)
  qed
  have "meal_triples meal meal_id = {(ns_getitem MEAL meal_id, RDF_type, ns_term RECIPE ''Meal'')}"
    using empty
    by (simp add: meal_triples_def Let_def property_triples_eq category_triples_eq
          cuisine_triples_eq ing del: set_upt)
  then show "add_meal_to_graph meal {}
       = Inr {(ns_getitem MEAL meal_id, RDF_type, ns_term RECIPE ''Meal'')}"
    using add_meal_to_graph_union [of meal meal_id "{}"] assms by simp
qed

theorem meal_type_triple_unconditional_witness:
  "bare_record ''idMeal'' = Some (JStr ''52874'')
   \<and> dict_get bare_record ''strMeal'' = JStr [] \<and> dict_get bare_record ''strYoutube'' = JNull
   \<and> add_meal_to_graph bare_record {}
       = Inr {(URIRef ''http://example.org/meal/52874'', RDF_type,
               URIRef ''http://example.org/recipe/Meal'')}"
proof -
  have id: "bare_record ''idMeal'' = Some (JStr ''52874'')"
    by (simp add: bare_record_def)
  have empty: "\<forall>key. key \<noteq> ''idMeal'' \<longrightarrow> \<not> truthy (dict_get bare_record key)"
    by (simp add: bare_record_def dict_get_def)
  have fields: "dict_get bare_record ''strMeal'' = JStr []"
    "dict_get bare_record ''strYoutube'' = JNull"
    by (simp_all add: bare_record_def dict_get_def)
  show ?thesis
    using meal_type_triple_unconditional [of bare_record "JStr ''52874''" "{}"] id empty fields
    by (simp add: ns_term_def MEAL_def RECIPE_def)
qed

end
